theory Spec2Isabelle
  imports Main
begin

section \<open>ECMAScript time values\<close>

text \<open>
  A JavaScript \<^verbatim>\<open>Date\<close> holds a time value: an integral number of milliseconds since
  1970-01-01T00:00:00Z, or NaN (an Invalid Date). Valid time values are modelled as
  \<^typ>\<open>int\<close>; a \<^verbatim>\<open>Date\<close> that may be invalid is an \<^typ>\<open>int option\<close>, with \<^term>\<open>None\<close>
  for NaN. The functions below are the abstract operations of the ECMAScript
  specification (section "Date Objects") that the methods used by
  \<^verbatim>\<open>events-manager.js\<close> are defined by. The range limit of a time value
  (\<^verbatim>\<open>TimeClip\<close>, 8.64e15 ms on either side of the epoch) is not modelled: instants and
  durations are unbounded integers. All values are integral and below 2^53, so the
  floating-point division followed by \<^verbatim>\<open>Math.floor\<close> is \<^term>\<open>(div)\<close> and \<^verbatim>\<open>%\<close> on
  non-negative operands is \<^term>\<open>(mod)\<close>.
\<close>

type_synonym jsdate = "int option"

definition msPerDay :: int where
  "msPerDay = 86400000"

definition Day :: "int \<Rightarrow> int" where
  "Day t = t div msPerDay"

definition TimeWithinDay :: "int \<Rightarrow> int" where
  "TimeWithinDay t = t mod msPerDay"

definition DaysInYear :: "int \<Rightarrow> int" where
  "DaysInYear y =
     (if y mod 4 \<noteq> 0 then 365
      else if y mod 100 \<noteq> 0 then 366
      else if y mod 400 \<noteq> 0 then 365
      else 366)"

definition DayFromYear :: "int \<Rightarrow> int" where
  "DayFromYear y =
     365 * (y - 1970) + (y - 1969) div 4 - (y - 1901) div 100 + (y - 1601) div 400"

text \<open>
  ECMAScript defines \<^verbatim>\<open>YearFromTime(t)\<close> as the largest \<open>y\<close> with
  \<^verbatim>\<open>TimeFromYear(y) \<le> t\<close>. \<open>YearFromDay\<close> computes it: the estimate from the mean
  length of a Gregorian year is off by at most one, and is adjusted. Lemmas
  \<open>YearFromDay_lower\<close> and \<open>YearFromDay_upper\<close> below show that the result is
  that largest year.
\<close>

definition YearFromDay :: "int \<Rightarrow> int" where
  "YearFromDay d =
     (let y = 1970 + (400 * d) div 146097
      in if d < DayFromYear y then y - 1
         else if DayFromYear (y + 1) \<le> d then y + 1
         else y)"

definition YearFromTime :: "int \<Rightarrow> int" where
  "YearFromTime t = YearFromDay (Day t)"

definition InLeapYear :: "int \<Rightarrow> int" where
  "InLeapYear t = (if DaysInYear (YearFromTime t) = 366 then 1 else 0)"

definition DayWithinYear :: "int \<Rightarrow> int" where
  "DayWithinYear t = Day t - DayFromYear (YearFromTime t)"

text \<open>The day within the year on which month \<open>m\<close> (0 to 11) starts; \<open>leap\<close> is 0 or 1.\<close>

definition MonthStart :: "int \<Rightarrow> int \<Rightarrow> int" where
  "MonthStart m leap =
     (if m = 0 then 0
      else if m = 1 then 31
      else if m = 2 then 59 + leap
      else if m = 3 then 90 + leap
      else if m = 4 then 120 + leap
      else if m = 5 then 151 + leap
      else if m = 6 then 181 + leap
      else if m = 7 then 212 + leap
      else if m = 8 then 243 + leap
      else if m = 9 then 273 + leap
      else if m = 10 then 304 + leap
      else 334 + leap)"

definition MonthFromTime :: "int \<Rightarrow> int" where
  "MonthFromTime t =
     (let d = DayWithinYear t; leap = InLeapYear t
      in if d < 31 then 0
         else if d < 59 + leap then 1
         else if d < 90 + leap then 2
         else if d < 120 + leap then 3
         else if d < 151 + leap then 4
         else if d < 181 + leap then 5
         else if d < 212 + leap then 6
         else if d < 243 + leap then 7
         else if d < 273 + leap then 8
         else if d < 304 + leap then 9
         else if d < 334 + leap then 10
         else 11)"

definition DateFromTime :: "int \<Rightarrow> int" where
  "DateFromTime t = DayWithinYear t - MonthStart (MonthFromTime t) (InLeapYear t) + 1"

definition WeekDay :: "int \<Rightarrow> int" where
  "WeekDay t = (Day t + 4) mod 7"

definition MakeTime :: "int \<Rightarrow> int \<Rightarrow> int \<Rightarrow> int \<Rightarrow> int" where
  "MakeTime hour minute sec ms = hour * 3600000 + minute * 60000 + sec * 1000 + ms"

text \<open>
  \<^verbatim>\<open>MakeDay\<close> carries a month outside 0..11 into the year and counts the date from the
  first of the month, so a date outside the month rolls over into the neighbouring ones.
\<close>

definition MakeDay :: "int \<Rightarrow> int \<Rightarrow> int \<Rightarrow> int" where
  "MakeDay year month date =
     (let ym = year + month div 12;
          mn = month mod 12
      in DayFromYear ym + MonthStart mn (if DaysInYear ym = 366 then 1 else 0) + date - 1)"

definition MakeDate :: "int \<Rightarrow> int \<Rightarrow> int" where
  "MakeDate day time = day * msPerDay + time"

definition MakeFullYear :: "int \<Rightarrow> int" where
  "MakeFullYear year = (if 0 \<le> year \<and> year \<le> 99 then 1900 + year else year)"

text \<open>\<^verbatim>\<open>Date.UTC(year, month, date, hours, minutes, seconds, ms)\<close>\<close>

definition Date_UTC :: "int \<Rightarrow> int \<Rightarrow> int \<Rightarrow> int \<Rightarrow> int \<Rightarrow> int \<Rightarrow> int \<Rightarrow> int" where
  "Date_UTC year month date hours minutes seconds ms =
     MakeDate (MakeDay (MakeFullYear year) month date) (MakeTime hours minutes seconds ms)"

definition getUTCFullYear :: "int \<Rightarrow> int" where
  "getUTCFullYear t = YearFromTime t"

definition getUTCMonth :: "int \<Rightarrow> int" where
  "getUTCMonth t = MonthFromTime t"

definition getUTCDate :: "int \<Rightarrow> int" where
  "getUTCDate t = DateFromTime t"

definition getUTCDay :: "int \<Rightarrow> int" where
  "getUTCDay t = WeekDay t"

definition setUTCDate :: "int \<Rightarrow> int \<Rightarrow> int" where
  "setUTCDate t dt = MakeDate (MakeDay (YearFromTime t) (MonthFromTime t) dt) (TimeWithinDay t)"

definition setUTCHours :: "int \<Rightarrow> int \<Rightarrow> int \<Rightarrow> int \<Rightarrow> int \<Rightarrow> int" where
  "setUTCHours t hour minute sec ms = MakeDate (Day t) (MakeTime hour minute sec ms)"

text \<open>
  \<^verbatim>\<open>getDate\<close> and \<^verbatim>\<open>setDate\<close> work in the local time of the host. The host's time zone
  is a parameter: \<open>offsetAtUTC z t\<close> is the offset from UTC, in milliseconds, in force at
  the instant \<open>t\<close> (\<^verbatim>\<open>LocalTZA(t, true)\<close>), and \<open>offsetAtLocal z lv\<close> is the offset by
  which the local time value \<open>lv\<close> is read back as an instant (\<^verbatim>\<open>LocalTZA(lv, false)\<close>).
  The two differ around a daylight-saving transition, so a local day can last 23 or 25
  hours.
\<close>

record hostZone =
  offsetAtUTC :: "int \<Rightarrow> int"
  offsetAtLocal :: "int \<Rightarrow> int"

definition LocalTime :: "hostZone \<Rightarrow> int \<Rightarrow> int" where
  "LocalTime zone t = t + offsetAtUTC zone t"

definition UTC_of_local :: "hostZone \<Rightarrow> int \<Rightarrow> int" where
  "UTC_of_local zone lv = lv - offsetAtLocal zone lv"

definition getDate :: "hostZone \<Rightarrow> int \<Rightarrow> int" where
  "getDate zone t = DateFromTime (LocalTime zone t)"

definition setDate :: "hostZone \<Rightarrow> int \<Rightarrow> int \<Rightarrow> int" where
  "setDate zone t dt =
     (let lt = LocalTime zone t
      in UTC_of_local zone
           (MakeDate (MakeDay (YearFromTime lt) (MonthFromTime lt) dt) (TimeWithinDay lt)))"

text \<open>A zone whose offset never changes, such as UTC itself (offset 0).\<close>

definition fixedZone :: "int \<Rightarrow> hostZone" where
  "fixedZone c = \<lparr>offsetAtUTC = (\<lambda>t. c), offsetAtLocal = (\<lambda>lv. c)\<rparr>"

text \<open>
  America/New_York under the rules in force in 2026: standard time is UTC-5, and
  daylight time, UTC-4, runs from 2026-03-08T07:00Z (02:00 local) to 2026-11-01T06:00Z
  (02:00 local). A local time in the skipped or in the repeated hour is read with the
  offset before the transition, as ECMAScript prescribes. Instants of other years get
  the standard offset.
\<close>

definition newYork2026 :: hostZone where
  "newYork2026 =
     (let dstStart = Date_UTC 2026 2 8 7 0 0 0;
          dstEnd = Date_UTC 2026 10 1 6 0 0 0;
          est = - 18000000;
          edt = - 14400000
      in \<lparr>offsetAtUTC = (\<lambda>t. if dstStart \<le> t \<and> t < dstEnd then edt else est),
          offsetAtLocal =
            (\<lambda>lv. if lv < dstStart + est + 3600000 then est
                  else if lv < dstEnd + edt then edt
                  else est)\<rparr>)"

text \<open>
  Relational operators on \<^verbatim>\<open>Date\<close> objects compare their time values; a comparison with
  an Invalid Date (NaN) is false.
\<close>

definition date_lt :: "jsdate \<Rightarrow> jsdate \<Rightarrow> bool" where
  "date_lt a b = (case a of None \<Rightarrow> False | Some x \<Rightarrow> (case b of None \<Rightarrow> False | Some y \<Rightarrow> x < y))"

definition date_le :: "jsdate \<Rightarrow> jsdate \<Rightarrow> bool" where
  "date_le a b = (case a of None \<Rightarrow> False | Some x \<Rightarrow> (case b of None \<Rightarrow> False | Some y \<Rightarrow> x \<le> y))"

section \<open>Strings and numbers\<close>

text \<open>
  \<^verbatim>\<open>parseInt(s, 10)\<close>: leading white space is skipped, an optional sign is read, then
  the longest run of decimal digits; with no digit the result is NaN (\<^term>\<open>None\<close>).
  Characters are bytes here, so only the ASCII white space characters are recognised.
\<close>

definition isWhiteSpace :: "char \<Rightarrow> bool" where
  "isWhiteSpace c = ((of_char c :: nat) \<in> {9, 10, 11, 12, 13, 32})"

definition isDigit :: "char \<Rightarrow> bool" where
  "isDigit c = (48 \<le> (of_char c :: nat) \<and> (of_char c :: nat) \<le> 57)"

definition digitVal :: "char \<Rightarrow> int" where
  "digitVal c = int (of_char c) - 48"

definition parseInt10 :: "string \<Rightarrow> int option" where
  "parseInt10 str =
     (let s = dropWhile isWhiteSpace str;
          neg = (case s of [] \<Rightarrow> False | c # r \<Rightarrow> c = CHR ''-'');
          rest = (case s of [] \<Rightarrow> [] | c # r \<Rightarrow> if c = CHR ''-'' \<or> c = CHR ''+'' then r else s);
          ds = takeWhile isDigit rest;
          n = foldl (\<lambda>acc c. acc * 10 + digitVal c) 0 ds
      in if ds = [] then None else Some (if neg then - n else n))"

text \<open>\<^verbatim>\<open>Array.prototype.indexOf\<close>: the first index holding the value, or -1.\<close>

fun indexOf :: "'a list \<Rightarrow> 'a \<Rightarrow> int" where
  "indexOf [] x = - 1"
| "indexOf (y # ys) x =
     (if y = x then 0
      else (let i = indexOf ys x in if i = - 1 then - 1 else i + 1))"

text \<open>Decimal rendering of a number inside a template literal.\<close>

fun showNat :: "nat \<Rightarrow> string" where
  "showNat n =
     (if n < 10 then [char_of (48 + n)]
      else showNat (n div 10) @ [char_of (48 + n mod 10)])"

definition numToString :: "int \<Rightarrow> string" where
  "numToString i = (if i < 0 then CHR ''-'' # showNat (nat (- i)) else showNat (nat i))"

section \<open>Event definitions and the manager\<close>

text \<open>
  The entries of \<^verbatim>\<open>repeating_events\<close> and \<^verbatim>\<open>one_time_events\<close>. An optional field that is
  absent is \<^term>\<open>None\<close>. The \<^verbatim>\<open>start\<close> and \<^verbatim>\<open>end\<close> strings of a one-time event are
  held as the time values \<^verbatim>\<open>new Date(event.start)\<close> and \<^verbatim>\<open>new Date(event.end)\<close> give
  (\<^term>\<open>None\<close> when the string does not parse).
\<close>

record event_base =
  title :: string
  icon :: string
  image :: "string option"
  description :: "string option"
  active :: "bool option"

record repeating_event = event_base +
  baseDate :: string
  modifier :: string
  durationDays :: int

record one_time_event = event_base +
  ot_start :: jsdate
  ot_end :: jsdate

record events_config =
  repeating_events :: "repeating_event list option"
  one_time_events :: "one_time_event list option"

text \<open>The object \<^verbatim>\<open>{ start, end }\<close> returned by the window calculations.\<close>

record window =
  wstart :: jsdate
  wend :: jsdate

record countdown =
  days :: int
  hours :: int
  minutes :: int
  seconds :: int
  totalMs :: int

record active_event =
  a_title :: string
  a_icon :: string
  a_image :: "string option"
  a_description :: string
  a_type :: string
  a_modifier :: "string option"
  a_start :: jsdate
  a_end :: jsdate
  a_countdown :: countdown
  a_countdownText :: string

record upcoming_event =
  u_title :: string
  u_icon :: string
  u_image :: "string option"
  u_description :: string
  u_type :: string
  u_modifier :: "string option"
  u_start :: jsdate
  u_end :: jsdate
  isActive :: bool

record calendar_entry =
  date :: int
  fullDate :: jsdate
  c_title :: string
  c_icon :: string
  c_type :: string
  isStart :: bool
  isEnd :: bool

text \<open>The three fields the constructor of \<^verbatim>\<open>EventsManager\<close> sets to \<^verbatim>\<open>null\<close>.\<close>

record EventsManager =
  eventsConfig :: "events_config option"
  cachedActiveEvents :: "active_event list option"
  lastUpdateTime :: "int option"

text \<open>A thrown \<^verbatim>\<open>Error\<close>, with its message.\<close>

datatype error = Error string

section \<open>Window calculation\<close>

text \<open>
  \<^verbatim>\<open>calculateMonthlyEvent\<close>. When \<^verbatim>\<open>parseInt\<close> gives NaN, every comparison with the day
  of month is false, so control reaches the last \<^verbatim>\<open>Date.UTC\<close> call, whose NaN argument
  makes the start an Invalid Date; \<^verbatim>\<open>setUTCDate\<close> on its copy leaves the end invalid too.
\<close>

definition calculateMonthlyEvent :: "string \<Rightarrow> int \<Rightarrow> int \<Rightarrow> window" where
  "calculateMonthlyEvent baseDate' durationDays' referenceDate =
     (case parseInt10 baseDate' of
        None \<Rightarrow> \<lparr>wstart = None, wend = None\<rparr>
      | Some dayOfMonth \<Rightarrow>
          (let currentDate = referenceDate;
               currentYear = getUTCFullYear currentDate;
               currentMonth = getUTCMonth currentDate;
               currentDay = getUTCDate currentDate;
               startDate =
                 (if currentDay < dayOfMonth
                  then Date_UTC currentYear currentMonth dayOfMonth 8 0 0 0
                  else
                    (let potentialStart = Date_UTC currentYear currentMonth dayOfMonth 8 0 0 0;
                         potentialEnd =
                           setUTCDate potentialStart (getUTCDate potentialStart + durationDays')
                     in if potentialStart \<le> currentDate \<and> currentDate < potentialEnd
                        then potentialStart
                        else Date_UTC currentYear (currentMonth + 1) dayOfMonth 8 0 0 0));
               endDate = setUTCDate startDate (getUTCDate startDate + durationDays')
           in \<lparr>wstart = Some startDate, wend = Some endDate\<rparr>))"

definition daysOfWeek :: "string list" where
  "daysOfWeek =
     [''Sunday'', ''Monday'', ''Tuesday'', ''Wednesday'', ''Thursday'', ''Friday'', ''Saturday'']"

text \<open>
  The two windows \<^verbatim>\<open>calculateWeeklyEvent\<close> builds: the occurrence that started
  \<open>daysSinceTarget\<close> days before the reference, and the next one strictly ahead.
\<close>

definition lastWeekWindow :: "int \<Rightarrow> int \<Rightarrow> int \<Rightarrow> window" where
  "lastWeekWindow targetDay durationDays' currentDate =
     (let currentDay = getUTCDay currentDate;
          daysSinceTarget = (currentDay - targetDay + 7) mod 7;
          lastWeekStart =
            setUTCHours (setUTCDate currentDate (getUTCDate currentDate - daysSinceTarget)) 8 0 0 0;
          lastWeekEnd = setUTCDate lastWeekStart (getUTCDate lastWeekStart + durationDays')
      in \<lparr>wstart = Some lastWeekStart, wend = Some lastWeekEnd\<rparr>)"

definition nextWindow :: "int \<Rightarrow> int \<Rightarrow> int \<Rightarrow> window" where
  "nextWindow targetDay durationDays' currentDate =
     (let currentDay = getUTCDay currentDate;
          daysUntilTarget0 = targetDay - currentDay;
          daysUntilTarget = (if daysUntilTarget0 \<le> 0 then daysUntilTarget0 + 7 else daysUntilTarget0);
          startDate =
            setUTCHours (setUTCDate currentDate (getUTCDate currentDate + daysUntilTarget)) 8 0 0 0;
          endDate = setUTCDate startDate (getUTCDate startDate + durationDays')
      in \<lparr>wstart = Some startDate, wend = Some endDate\<rparr>)"

definition calculateWeeklyEvent :: "string \<Rightarrow> int \<Rightarrow> int \<Rightarrow> error + window" where
  "calculateWeeklyEvent baseDate' durationDays' referenceDate =
     (let targetDay = indexOf daysOfWeek baseDate'
      in if targetDay = - 1 then Inl (Error (''Invalid day of week: '' @ baseDate'))
         else
           (let currentDate = referenceDate;
                currentDay = getUTCDay currentDate;
                daysSinceTarget = (currentDay - targetDay + 7) mod 7;
                lastWeek = lastWeekWindow targetDay durationDays' currentDate
            in if 0 < daysSinceTarget \<and> daysSinceTarget \<le> durationDays'
                  \<and> date_le (wstart lastWeek) (Some currentDate)
                  \<and> date_lt (Some currentDate) (wend lastWeek)
               then Inr lastWeek
               else Inr (nextWindow targetDay durationDays' currentDate)))"

definition calculateRepeatingEventDates :: "repeating_event \<Rightarrow> int \<Rightarrow> error + window" where
  "calculateRepeatingEventDates event referenceDate =
     (if modifier event = ''monthly''
      then Inr (calculateMonthlyEvent (baseDate event) (durationDays event) referenceDate)
      else if modifier event = ''weekly''
      then calculateWeeklyEvent (baseDate event) (durationDays event) referenceDate
      else Inl (Error (''Unknown modifier: '' @ modifier event)))"

section \<open>Countdown\<close>

definition calculateCountdown :: "int \<Rightarrow> int \<Rightarrow> countdown" where
  "calculateCountdown endDate currentDate =
     (let timeRemaining = endDate - currentDate
      in if timeRemaining \<le> 0
         then \<lparr>days = 0, hours = 0, minutes = 0, seconds = 0, totalMs = 0\<rparr>
         else \<lparr>days = timeRemaining div (1000 * 60 * 60 * 24),
               hours = (timeRemaining mod (1000 * 60 * 60 * 24)) div (1000 * 60 * 60),
               minutes = (timeRemaining mod (1000 * 60 * 60)) div (1000 * 60),
               seconds = (timeRemaining mod (1000 * 60)) div 1000,
               totalMs = timeRemaining\<rparr>)"

definition formatCountdown :: "countdown \<Rightarrow> string" where
  "formatCountdown c =
     (if days c > 0 then numToString (days c) @ ''d '' @ numToString (hours c) @ ''h''
      else if hours c > 0 then numToString (hours c) @ ''h '' @ numToString (minutes c) @ ''m''
      else if minutes c > 0 then numToString (minutes c) @ ''m '' @ numToString (seconds c) @ ''s''
      else numToString (seconds c) @ ''s'')"

section \<open>Queries\<close>

text \<open>\<^verbatim>\<open>event.image || null\<close> and \<^verbatim>\<open>event.description || ''\<close>: an empty string is falsy.\<close>

definition imageOrNull :: "string option \<Rightarrow> string option" where
  "imageOrNull i = (case i of None \<Rightarrow> None | Some s \<Rightarrow> if s = [] then None else Some s)"

definition descriptionOrEmpty :: "string option \<Rightarrow> string" where
  "descriptionOrEmpty d = (case d of None \<Rightarrow> [] | Some s \<Rightarrow> s)"

text \<open>
  Each \<^verbatim>\<open>forEach\<close> callback is a function giving the entries it pushes, in order: none
  when it returns early or when the \<^verbatim>\<open>try\<close> block catches an error (which is only
  logged). An array of the configuration that is absent is not iterated.
\<close>

definition forEachPush :: "'a list option \<Rightarrow> ('a \<Rightarrow> 'b list) \<Rightarrow> 'b list" where
  "forEachPush arr callback = (case arr of None \<Rightarrow> [] | Some evs \<Rightarrow> concat (map callback evs))"

definition activeRepeating :: "int \<Rightarrow> repeating_event \<Rightarrow> active_event list" where
  "activeRepeating currentDate event =
     (if active event = Some False then []
      else
        (case calculateRepeatingEventDates event currentDate of
           Inl err \<Rightarrow> []
         | Inr w \<Rightarrow>
             (if date_le (wstart w) (Some currentDate) \<and> date_lt (Some currentDate) (wend w)
              then
                (case wend w of
                   None \<Rightarrow> []
                 | Some e \<Rightarrow>
                     (let cd = calculateCountdown e currentDate
                      in [\<lparr>a_title = title event, a_icon = icon event,
                           a_image = imageOrNull (image event),
                           a_description = descriptionOrEmpty (description event),
                           a_type = ''repeating'', a_modifier = Some (modifier event),
                           a_start = wstart w, a_end = wend w,
                           a_countdown = cd, a_countdownText = formatCountdown cd\<rparr>]))
              else [])))"

definition activeOneTime :: "int \<Rightarrow> one_time_event \<Rightarrow> active_event list" where
  "activeOneTime currentDate event =
     (if active event = Some False then []
      else
        (let start = ot_start event; finish = ot_end event
         in if date_le start (Some currentDate) \<and> date_lt (Some currentDate) finish
            then
              (case finish of
                 None \<Rightarrow> []
               | Some e \<Rightarrow>
                   (let cd = calculateCountdown e currentDate
                    in [\<lparr>a_title = title event, a_icon = icon event,
                         a_image = imageOrNull (image event),
                         a_description = descriptionOrEmpty (description event),
                         a_type = ''one-time'', a_modifier = None,
                         a_start = start, a_end = finish,
                         a_countdown = cd, a_countdownText = formatCountdown cd\<rparr>]))
            else []))"

text \<open>
  The part of \<^verbatim>\<open>getActiveEvents\<close> after the cache check, up to the sort.
  \<^verbatim>\<open>Array.prototype.sort\<close> is stable, as \<^term>\<open>sort_key\<close> is.
\<close>

definition computeActiveEvents :: "events_config \<Rightarrow> int \<Rightarrow> active_event list" where
  "computeActiveEvents cfg currentDate =
     sort_key (\<lambda>a. totalMs (a_countdown a))
       (forEachPush (repeating_events cfg) (activeRepeating currentDate)
        @ forEachPush (one_time_events cfg) (activeOneTime currentDate))"

text \<open>
  \<^verbatim>\<open>getActiveEvents\<close> returns its array and the manager with the cache fields as the call
  leaves them. In the cache test a \<^verbatim>\<open>lastUpdateTime\<close> of 0 is falsy, as \<^verbatim>\<open>null\<close> is.
\<close>

definition getActiveEvents ::
  "EventsManager \<Rightarrow> int \<Rightarrow> bool \<Rightarrow> active_event list \<times> EventsManager" where
  "getActiveEvents this currentDate forceRefresh =
     (case eventsConfig this of
        None \<Rightarrow> ([], this)
      | Some cfg \<Rightarrow>
          (let recompute =
                 (let activeEvents = computeActiveEvents cfg currentDate
                  in (activeEvents,
                      this\<lparr>cachedActiveEvents := Some activeEvents,
                           lastUpdateTime := Some currentDate\<rparr>))
           in if \<not> forceRefresh
              then
                (case cachedActiveEvents this of
                   None \<Rightarrow> recompute
                 | Some cached \<Rightarrow>
                     (case lastUpdateTime this of
                        None \<Rightarrow> recompute
                      | Some lastUpdate \<Rightarrow>
                          if lastUpdate \<noteq> 0 \<and> currentDate - lastUpdate < 1000
                          then (cached, this)
                          else recompute))
              else recompute))"

definition isEventActive :: "EventsManager \<Rightarrow> string \<Rightarrow> int \<Rightarrow> bool \<times> EventsManager" where
  "isEventActive this eventTitle currentDate =
     (let (activeEvents, this') = getActiveEvents this currentDate False
      in (list_ex (\<lambda>event. a_title event = eventTitle) activeEvents, this'))"

definition repeatingUpcomingEntry :: "repeating_event \<Rightarrow> window \<Rightarrow> int \<Rightarrow> upcoming_event" where
  "repeatingUpcomingEntry event w currentDate =
     \<lparr>u_title = title event, u_icon = icon event,
      u_image = imageOrNull (image event),
      u_description = descriptionOrEmpty (description event),
      u_type = ''repeating'', u_modifier = Some (modifier event),
      u_start = wstart w, u_end = wend w,
      isActive = (date_le (wstart w) (Some currentDate) \<and> date_lt (Some currentDate) (wend w))\<rparr>"

definition oneTimeUpcomingEntry :: "one_time_event \<Rightarrow> int \<Rightarrow> upcoming_event" where
  "oneTimeUpcomingEntry event currentDate =
     \<lparr>u_title = title event, u_icon = icon event,
      u_image = imageOrNull (image event),
      u_description = descriptionOrEmpty (description event),
      u_type = ''one-time'', u_modifier = None,
      u_start = ot_start event, u_end = ot_end event,
      isActive = (date_le (ot_start event) (Some currentDate)
                  \<and> date_lt (Some currentDate) (ot_end event))\<rparr>"

definition upcomingRepeating :: "int \<Rightarrow> int \<Rightarrow> repeating_event \<Rightarrow> upcoming_event list" where
  "upcomingRepeating currentDate endDate event =
     (if active event = Some False then []
      else
        (case calculateRepeatingEventDates event currentDate of
           Inl err \<Rightarrow> []
         | Inr w \<Rightarrow>
             (if date_lt (wstart w) (Some endDate)
              then [repeatingUpcomingEntry event w currentDate]
              else [])))"

definition upcomingOneTime :: "int \<Rightarrow> int \<Rightarrow> one_time_event \<Rightarrow> upcoming_event list" where
  "upcomingOneTime currentDate endDate event =
     (if active event = Some False then []
      else
        (let start = ot_start event; finish = ot_end event
         in if date_lt start (Some endDate) \<and> date_lt (Some currentDate) finish
            then [oneTimeUpcomingEntry event currentDate]
            else []))"

text \<open>
  The sort key of \<^verbatim>\<open>getUpcomingEvents\<close> is \<^verbatim>\<open>start.getTime()\<close>; every pushed entry
  passed \<^verbatim>\<open>start < endDate\<close>, so its start is a valid date.
\<close>

definition getTime :: "jsdate \<Rightarrow> int" where
  "getTime d = (case d of None \<Rightarrow> 0 | Some t \<Rightarrow> t)"

text \<open>
  \<^verbatim>\<open>getUpcomingEvents\<close> reads the manager and writes nothing. \<open>zone\<close> is the host's
  time zone, which \<^verbatim>\<open>setDate\<close> and \<^verbatim>\<open>getDate\<close> work in.
\<close>

definition getUpcomingEvents ::
  "hostZone \<Rightarrow> EventsManager \<Rightarrow> int \<Rightarrow> int \<Rightarrow> upcoming_event list" where
  "getUpcomingEvents zone this currentDate daysAhead =
     (case eventsConfig this of
        None \<Rightarrow> []
      | Some cfg \<Rightarrow>
          (let endDate = setDate zone currentDate (getDate zone currentDate + daysAhead)
           in sort_key (\<lambda>u. getTime (u_start u))
                (forEachPush (repeating_events cfg) (upcomingRepeating currentDate endDate)
                 @ forEachPush (one_time_events cfg) (upcomingOneTime currentDate endDate))))"

text \<open>
  The markers \<^verbatim>\<open>getCalendarForMonth\<close> pushes for one window. The outer test
  \<^verbatim>\<open>end > monthStart && start <= monthEnd\<close> is false when either date is invalid.
  For a monthly event the start marker is guarded by \<^verbatim>\<open>start >= monthStart\<close> and the
  end marker by \<^verbatim>\<open>end <= monthEnd\<close> alone; for weekly and one-time events both bounds
  are tested for each marker.
\<close>

definition startMarker :: "string \<Rightarrow> string \<Rightarrow> string \<Rightarrow> int \<Rightarrow> calendar_entry" where
  "startMarker t i ty s =
     \<lparr>date = getUTCDate s, fullDate = Some s, c_title = t, c_icon = i, c_type = ty,
      isStart = True, isEnd = False\<rparr>"

definition endMarker :: "string \<Rightarrow> string \<Rightarrow> string \<Rightarrow> int \<Rightarrow> calendar_entry" where
  "endMarker t i ty e =
     \<lparr>date = getUTCDate e, fullDate = Some e, c_title = t, c_icon = i, c_type = ty,
      isStart = False, isEnd = True\<rparr>"

definition monthlyMarkers :: "string \<Rightarrow> string \<Rightarrow> int \<Rightarrow> int \<Rightarrow> window \<Rightarrow> calendar_entry list" where
  "monthlyMarkers t i monthStart monthEnd w =
     (case wstart w of
        None \<Rightarrow> []
      | Some s \<Rightarrow>
          (case wend w of
             None \<Rightarrow> []
           | Some e \<Rightarrow>
               (if monthStart < e \<and> s \<le> monthEnd
                then (if monthStart \<le> s then [startMarker t i ''repeating'' s] else [])
                     @ (if e \<le> monthEnd then [endMarker t i ''repeating'' e] else [])
                else [])))"

definition boundedMarkers ::
  "string \<Rightarrow> string \<Rightarrow> string \<Rightarrow> int \<Rightarrow> int \<Rightarrow> window \<Rightarrow> calendar_entry list" where
  "boundedMarkers t i ty monthStart monthEnd w =
     (case wstart w of
        None \<Rightarrow> []
      | Some s \<Rightarrow>
          (case wend w of
             None \<Rightarrow> []
           | Some e \<Rightarrow>
               (if monthStart < e \<and> s \<le> monthEnd
                then (if monthStart \<le> s \<and> s \<le> monthEnd then [startMarker t i ty s] else [])
                     @ (if monthStart \<le> e \<and> e \<le> monthEnd then [endMarker t i ty e] else [])
                else [])))"

text \<open>
  The \<^verbatim>\<open>while (searchDate <= monthEnd)\<close> loop over a weekly event. An error thrown by
  the window calculation leaves the loop (it is caught outside it); the entries pushed
  before stay in the array.
\<close>

function weeklySearch :: "repeating_event \<Rightarrow> int \<Rightarrow> int \<Rightarrow> int \<Rightarrow> calendar_entry list" where
  "weeklySearch event monthStart monthEnd searchDate =
     (if searchDate \<le> monthEnd
      then
        (case calculateRepeatingEventDates event searchDate of
           Inl err \<Rightarrow> []
         | Inr w \<Rightarrow>
             boundedMarkers (title event) (icon event) ''repeating'' monthStart monthEnd w
             @ weeklySearch event monthStart monthEnd
                 (setUTCDate searchDate (getUTCDate searchDate + 7)))
      else [])"
  by pat_completeness auto
termination
proof (relation "measure (\<lambda>(event, monthStart, monthEnd, searchDate). nat (monthEnd - searchDate + 1))")
  show "wf (measure (\<lambda>(event, monthStart, monthEnd, searchDate). nat (monthEnd - searchDate + 1)))"
    by simp
next
  fix event :: repeating_event and monthStart monthEnd searchDate :: int and w :: window
  assume le: "searchDate \<le> monthEnd"
  have m: "0 \<le> MonthFromTime searchDate \<and> MonthFromTime searchDate < 12"
    by (simp add: MonthFromTime_def Let_def)
  have "MakeDay (YearFromTime searchDate) (MonthFromTime searchDate) (DateFromTime searchDate + 7)
          = Day searchDate + 7"
    using m by (simp add: MakeDay_def Let_def DateFromTime_def DayWithinYear_def InLeapYear_def)
  then have "setUTCDate searchDate (getUTCDate searchDate + 7) = searchDate + 7 * msPerDay"
    by (simp add: setUTCDate_def getUTCDate_def MakeDate_def Day_def TimeWithinDay_def
        algebra_simps)
  then show "((event, monthStart, monthEnd, setUTCDate searchDate (getUTCDate searchDate + 7)),
              (event, monthStart, monthEnd, searchDate))
             \<in> measure (\<lambda>(event, monthStart, monthEnd, searchDate). nat (monthEnd - searchDate + 1))"
    using le by (simp add: msPerDay_def)
qed

definition calendarRepeating :: "int \<Rightarrow> int \<Rightarrow> repeating_event \<Rightarrow> calendar_entry list" where
  "calendarRepeating monthStart monthEnd event =
     (if active event = Some False then []
      else if modifier event = ''monthly''
      then
        (case calculateRepeatingEventDates event monthStart of
           Inl err \<Rightarrow> []
         | Inr w \<Rightarrow> monthlyMarkers (title event) (icon event) monthStart monthEnd w)
      else if modifier event = ''weekly''
      then weeklySearch event monthStart monthEnd monthStart
      else [])"

definition calendarOneTime :: "int \<Rightarrow> int \<Rightarrow> one_time_event \<Rightarrow> calendar_entry list" where
  "calendarOneTime monthStart monthEnd event =
     (if active event = Some False then []
      else boundedMarkers (title event) (icon event) ''one-time'' monthStart monthEnd
             \<lparr>wstart = ot_start event, wend = ot_end event\<rparr>)"

text \<open>\<^verbatim>\<open>getCalendarForMonth\<close> reads the manager and writes nothing.\<close>

definition getCalendarForMonth :: "EventsManager \<Rightarrow> int \<Rightarrow> int \<Rightarrow> calendar_entry list" where
  "getCalendarForMonth this year month =
     (case eventsConfig this of
        None \<Rightarrow> []
      | Some cfg \<Rightarrow>
          (let monthStart = Date_UTC year month 1 0 0 0 0;
               monthEnd = Date_UTC year (month + 1) 0 23 59 59 0
           in forEachPush (repeating_events cfg) (calendarRepeating monthStart monthEnd)
              @ forEachPush (one_time_events cfg) (calendarOneTime monthStart monthEnd)))"

section \<open>The later version of \<open>getUpcomingEvents\<close>\<close>

text \<open>
  The source file holds a second version of the class in which both arrays go through
  one helper and an event carries either a recurrence (marked by \<open>ignoreDate\<close>) or
  explicit dates. Its window calculations are those above, unchanged.
\<close>

text \<open>
  An entry of \<^verbatim>\<open>repeating_events\<close> or \<^verbatim>\<open>non_repeating_events\<close> in the later version:
  one shape for both arrays, every recurrence and date field optional. \<open>ignoreDate\<close>
  is truthy when it is \<^verbatim>\<open>true\<close>; \<open>start_v2\<close> and \<open>end_v2\<close> are \<^term>\<open>None\<close> when the
  field is absent or empty, and otherwise hold the time value of \<^verbatim>\<open>new Date\<close> of the string.
\<close>

record event_v2 = event_base +
  ignoreDate :: "bool option"
  baseDate_v2 :: "string option"
  modifier_v2 :: "string option"
  durationDays_v2 :: "int option"
  start_v2 :: "jsdate option"
  end_v2 :: "jsdate option"
  type_v2 :: "string option"

record events_config_v2 =
  repeating_events_v2 :: "event_v2 list option"
  non_repeating_events :: "event_v2 list option"

text \<open>
  \<^verbatim>\<open>calculateRepeatingEventDates\<close> reads \<open>baseDate\<close>, \<open>modifier\<close> and \<open>durationDays\<close> of
  the event it is given.
\<close>

definition asRepeating :: "event_v2 \<Rightarrow> string \<Rightarrow> string \<Rightarrow> int \<Rightarrow> repeating_event" where
  "asRepeating event b m d =
     \<lparr>title = title event, icon = icon event, image = image event,
      description = description event, active = active event,
      baseDate = b, modifier = m, durationDays = d\<rparr>"

text \<open>
  The choice between the recurrence and the explicit dates; \<^term>\<open>None\<close> is the early
  return for an event with neither (a warning is logged).
\<close>

definition explicitDates_v2 :: "event_v2 \<Rightarrow> (error + window) option" where
  "explicitDates_v2 event =
     (case start_v2 event of
        None \<Rightarrow> None
      | Some s \<Rightarrow>
          (case end_v2 event of
             None \<Rightarrow> None
           | Some e \<Rightarrow> Some (Inr \<lparr>wstart = s, wend = e\<rparr>)))"

definition eventDates_v2 :: "event_v2 \<Rightarrow> int \<Rightarrow> (error + window) option" where
  "eventDates_v2 event currentDate =
     (if ignoreDate event = Some True
      then
        (case baseDate_v2 event of
           None \<Rightarrow> explicitDates_v2 event
         | Some b \<Rightarrow>
             if b = [] then explicitDates_v2 event
             else
               (case modifier_v2 event of
                  None \<Rightarrow> explicitDates_v2 event
                | Some m \<Rightarrow>
                    (case durationDays_v2 event of
                       None \<Rightarrow> explicitDates_v2 event
                     | Some d \<Rightarrow>
                         Some (calculateRepeatingEventDates (asRepeating event b m d) currentDate))))
      else explicitDates_v2 event)"

text \<open>\<^verbatim>\<open>event.modifier ? 'repeating' : 'one-time'\<close>: an absent or empty modifier is falsy.\<close>

definition typeFromModifier :: "string option \<Rightarrow> string" where
  "typeFromModifier m =
     (case m of None \<Rightarrow> ''one-time'' | Some x \<Rightarrow> if x = [] then ''one-time'' else ''repeating'')"

definition upcomingEntry_v2 :: "event_v2 \<Rightarrow> window \<Rightarrow> int \<Rightarrow> upcoming_event" where
  "upcomingEntry_v2 event w currentDate =
     \<lparr>u_title = title event, u_icon = icon event,
      u_image = imageOrNull (image event),
      u_description = descriptionOrEmpty (description event),
      u_type = (case type_v2 event of
                  None \<Rightarrow> typeFromModifier (modifier_v2 event)
                | Some ty \<Rightarrow> if ty = [] then typeFromModifier (modifier_v2 event) else ty),
      u_modifier = modifier_v2 event,
      u_start = wstart w, u_end = wend w,
      isActive = (date_le (wstart w) (Some currentDate) \<and> date_lt (Some currentDate) (wend w))\<rparr>"

definition upcomingEvent_v2 :: "int \<Rightarrow> int \<Rightarrow> event_v2 \<Rightarrow> upcoming_event list" where
  "upcomingEvent_v2 currentDate endDate event =
     (if active event = Some False then []
      else
        (case eventDates_v2 event currentDate of
           None \<Rightarrow> []
         | Some (Inl err) \<Rightarrow> []
         | Some (Inr w) \<Rightarrow>
             (if date_lt (wstart w) (Some endDate) \<and> date_lt (Some currentDate) (wend w)
              then [upcomingEntry_v2 event w currentDate]
              else [])))"

definition getUpcomingEvents_v2 ::
  "hostZone \<Rightarrow> events_config_v2 option \<Rightarrow> int \<Rightarrow> int \<Rightarrow> upcoming_event list" where
  "getUpcomingEvents_v2 zone eventsConfig' currentDate daysAhead =
     (case eventsConfig' of
        None \<Rightarrow> []
      | Some cfg \<Rightarrow>
          (let endDate = setDate zone currentDate (getDate zone currentDate + daysAhead)
           in sort_key (\<lambda>u. getTime (u_start u))
                (forEachPush (repeating_events_v2 cfg) (upcomingEvent_v2 currentDate endDate)
                 @ forEachPush (non_repeating_events cfg) (upcomingEvent_v2 currentDate endDate))))"

section \<open>Notions used in the statements\<close>

text \<open>A reference instant lies in a window when it is in the half-open interval.\<close>

definition windowContains :: "window \<Rightarrow> int \<Rightarrow> bool" where
  "windowContains w t = (date_le (wstart w) (Some t) \<and> date_lt (Some t) (wend w))"

text \<open>How many days before the reference the target weekday last fell (0 when it is today).\<close>

definition daysSinceTarget :: "int \<Rightarrow> int \<Rightarrow> int" where
  "daysSinceTarget targetDay t = (getUTCDay t - targetDay + 7) mod 7"

text \<open>The arrays of a configuration as lists; an absent array has no entries.\<close>

definition repeatingOf :: "events_config \<Rightarrow> repeating_event list" where
  "repeatingOf cfg = (case repeating_events cfg of None \<Rightarrow> [] | Some evs \<Rightarrow> evs)"

definition oneTimeOf :: "events_config \<Rightarrow> one_time_event list" where
  "oneTimeOf cfg = (case one_time_events cfg of None \<Rightarrow> [] | Some evs \<Rightarrow> evs)"

text \<open>All events of a configuration of the later version, in processing order.\<close>

definition eventsOf_v2 :: "events_config_v2 \<Rightarrow> event_v2 list" where
  "eventsOf_v2 cfg =
     (case repeating_events_v2 cfg of None \<Rightarrow> [] | Some evs \<Rightarrow> evs)
     @ (case non_repeating_events cfg of None \<Rightarrow> [] | Some evs \<Rightarrow> evs)"

text \<open>The configuration with every definition carrying \<^verbatim>\<open>active: false\<close> taken out.\<close>

definition withoutInactive :: "events_config \<Rightarrow> events_config" where
  "withoutInactive cfg =
     \<lparr>repeating_events = map_option (filter (\<lambda>e. active e \<noteq> Some False)) (repeating_events cfg),
      one_time_events = map_option (filter (\<lambda>e. active e \<noteq> Some False)) (one_time_events cfg)\<rparr>"

text \<open>
  A repeating definition whose recurrence fields are invalid: the modifier is unknown, or
  it is weekly and the base date is not a day name.
\<close>

definition malformed :: "repeating_event \<Rightarrow> bool" where
  "malformed ev =
     ((modifier ev \<noteq> ''monthly'' \<and> modifier ev \<noteq> ''weekly'')
      \<or> (modifier ev = ''weekly'' \<and> baseDate ev \<notin> set daysOfWeek))"

text \<open>
  The invariants of the data model for a repeating definition: a positive duration, and
  for a monthly one a day of month that is not below 1 when it parses.
\<close>

definition wellFormedRepeating :: "repeating_event \<Rightarrow> bool" where
  "wellFormedRepeating ev =
     (0 < durationDays ev
      \<and> (if modifier ev = ''monthly''
         then (case parseInt10 (baseDate ev) of None \<Rightarrow> True | Some d \<Rightarrow> 1 \<le> d)
         else True))"

text \<open>
  \<open>getUpcomingEvents\<close> as the specification words it: the definitions that are not
  soft-deleted and whose window overlaps the horizon, that is
  \<open>window.start < reference + daysAhead days\<close> and \<open>window.end > reference\<close>, sorted by
  the start of the window.
\<close>

definition overlapsHorizon :: "window \<Rightarrow> int \<Rightarrow> int \<Rightarrow> bool" where
  "overlapsHorizon w reference daysAhead =
     (date_lt (wstart w) (Some (reference + daysAhead * msPerDay))
      \<and> date_lt (Some reference) (wend w))"

definition spec_upcomingRepeating :: "int \<Rightarrow> int \<Rightarrow> repeating_event \<Rightarrow> upcoming_event list" where
  "spec_upcomingRepeating reference daysAhead ev =
     (if active ev = Some False then []
      else
        (case calculateRepeatingEventDates ev reference of
           Inl err \<Rightarrow> []
         | Inr w \<Rightarrow>
             if overlapsHorizon w reference daysAhead
             then [repeatingUpcomingEntry ev w reference] else []))"

definition spec_upcomingOneTime :: "int \<Rightarrow> int \<Rightarrow> one_time_event \<Rightarrow> upcoming_event list" where
  "spec_upcomingOneTime reference daysAhead ev =
     (if active ev = Some False then []
      else if overlapsHorizon \<lparr>wstart = ot_start ev, wend = ot_end ev\<rparr> reference daysAhead
      then [oneTimeUpcomingEntry ev reference] else [])"

definition spec_getUpcomingEvents :: "events_config \<Rightarrow> int \<Rightarrow> int \<Rightarrow> upcoming_event list" where
  "spec_getUpcomingEvents cfg reference daysAhead =
     sort_key (\<lambda>u. getTime (u_start u))
       (concat (map (spec_upcomingRepeating reference daysAhead) (repeatingOf cfg))
        @ concat (map (spec_upcomingOneTime reference daysAhead) (oneTimeOf cfg)))"

section \<open>Example configurations\<close>

text \<open>
  The manager as its constructor leaves it, and after \<^verbatim>\<open>loadEvents\<close> stored a
  configuration object. The definitions are the examples of the module's documentation.
\<close>

definition newManager :: EventsManager where
  "newManager = \<lparr>eventsConfig = None, cachedActiveEvents = None, lastUpdateTime = None\<rparr>"

definition managerWith :: "events_config \<Rightarrow> EventsManager" where
  "managerWith cfg = newManager\<lparr>eventsConfig := Some cfg\<rparr>"

definition goldPass :: repeating_event where
  "goldPass =
     \<lparr>title = ''Gold Pass'', icon = ''star'', image = None,
      description = Some ''Season challenges and rewards'', active = Some True,
      baseDate = ''01'', modifier = ''monthly'', durationDays = 31\<rparr>"

definition raidWeekend :: repeating_event where
  "raidWeekend =
     \<lparr>title = ''Raid Weekend'', icon = ''trophy'', image = None,
      description = Some ''Capital Raid Weekend'', active = Some True,
      baseDate = ''Friday'', modifier = ''weekly'', durationDays = 3\<rparr>"

definition gemBoosts :: one_time_event where
  "gemBoosts =
     \<lparr>title = ''1 Gem Boosts'', icon = ''gem'', image = None,
      description = Some ''All boosts cost just 1 gem'', active = Some True,
      ot_start = Some (Date_UTC 2026 0 15 8 0 0 0), ot_end = Some (Date_UTC 2026 0 20 8 0 0 0)\<rparr>"

definition goldPass_v2 :: event_v2 where
  "goldPass_v2 =
     \<lparr>title = ''Gold Pass'', icon = ''star'', image = None,
      description = Some ''Season challenges and rewards'', active = Some True,
      ignoreDate = Some True, baseDate_v2 = Some ''01'', modifier_v2 = Some ''monthly'',
      durationDays_v2 = Some 31, start_v2 = None, end_v2 = None, type_v2 = None\<rparr>"

definition gemBoosts_v2 :: event_v2 where
  "gemBoosts_v2 =
     \<lparr>title = ''1 Gem Boosts'', icon = ''gem'', image = None,
      description = Some ''All boosts cost just 1 gem'', active = Some True,
      ignoreDate = None, baseDate_v2 = None, modifier_v2 = None,
      durationDays_v2 = None, start_v2 = Some (Some (Date_UTC 2026 0 15 8 0 0 0)),
      end_v2 = Some (Some (Date_UTC 2026 0 20 8 0 0 0)), type_v2 = None\<rparr>"

definition exampleConfig_v2 :: events_config_v2 where
  "exampleConfig_v2 =
     \<lparr>repeating_events_v2 = Some [goldPass_v2], non_repeating_events = Some [gemBoosts_v2]\<rparr>"

definition marchBoosts :: one_time_event where
  "marchBoosts =
     gemBoosts\<lparr>ot_start := Some (Date_UTC 2026 2 8 11 30 0 0),
               ot_end := Some (Date_UTC 2026 2 9 8 0 0 0)\<rparr>"

definition marchBoosts_v2 :: event_v2 where
  "marchBoosts_v2 =
     gemBoosts_v2\<lparr>start_v2 := Some (Some (Date_UTC 2026 2 8 11 30 0 0)),
                  end_v2 := Some (Some (Date_UTC 2026 2 9 8 0 0 0))\<rparr>"

definition goldPassConfig :: events_config where
  "goldPassConfig = \<lparr>repeating_events = Some [goldPass], one_time_events = None\<rparr>"

definition weeklyEvent :: "string \<Rightarrow> int \<Rightarrow> repeating_event" where
  "weeklyEvent day n = raidWeekend\<lparr>baseDate := day, durationDays := n\<rparr>"

definition exampleConfig :: events_config where
  "exampleConfig =
     \<lparr>repeating_events = Some [goldPass, raidWeekend], one_time_events = Some [gemBoosts]\<rparr>"

section \<open>Calendar arithmetic\<close>

lemma div_lower: "0 < (k::int) \<Longrightarrow> k * (a div k) \<le> a"
  using pos_mod_sign[of k a] mult_div_mod_eq[of k a] by linarith

lemma div_upper: "0 < (k::int) \<Longrightarrow> a < k * (a div k) + k"
  using pos_mod_bound[of k a] mult_div_mod_eq[of k a] by linarith

lemma DayFromYear_bounds:
  "146097 * y - 287811697 \<le> 400 * DayFromYear y \<and>
   400 * DayFromYear y \<le> 146097 * y - 287810497"
proof -
  define q4 where "q4 = (y - 1969) div 4"
  define q100 where "q100 = (y - 1901) div 100"
  define q400 where "q400 = (y - 1601) div 400"
  have a1: "4 * q4 \<le> y - 1969" using div_lower[of 4 "y - 1969"] by (simp add: q4_def)
  have a2: "y - 1969 < 4 * q4 + 4" using div_upper[of 4 "y - 1969"] by (simp add: q4_def)
  have b1: "100 * q100 \<le> y - 1901" using div_lower[of 100 "y - 1901"] by (simp add: q100_def)
  have b2: "y - 1901 < 100 * q100 + 100" using div_upper[of 100 "y - 1901"] by (simp add: q100_def)
  have c1: "400 * q400 \<le> y - 1601" using div_lower[of 400 "y - 1601"] by (simp add: q400_def)
  have c2: "y - 1601 < 400 * q400 + 400" using div_upper[of 400 "y - 1601"] by (simp add: q400_def)
  define D where "D = DayFromYear y"
  have d: "D = 365 * y - 719050 + q4 - q100 + q400"
    by (simp add: D_def DayFromYear_def q4_def q100_def q400_def)
  have "146097 * y - 287811697 \<le> 400 * D"
    using a1 a2 b1 b2 c1 c2 d by linarith
  moreover have "400 * D \<le> 146097 * y - 287810497"
    using a1 a2 b1 b2 c1 c2 d by linarith
  ultimately show ?thesis by (simp add: D_def)
qed

lemma YearFromDay_lower: "DayFromYear (YearFromDay d) \<le> d"
proof -
  define y where "y = 1970 + (400 * d) div 146097"
  have e: "146097 * y - 287811090 \<le> 400 * d"
    using div_lower[of 146097 "400 * d"] by (simp add: y_def)
  have h: "400 * DayFromYear (y - 1) \<le> 146097 * y - 287956594"
    using DayFromYear_bounds[of "y - 1"] by (simp add: algebra_simps)
  have "DayFromYear (y - 1) \<le> d" using h e by linarith
  then show ?thesis
    unfolding YearFromDay_def Let_def y_def[symmetric] by auto
qed

lemma YearFromDay_upper: "d < DayFromYear (YearFromDay d + 1)"
proof -
  define y where "y = 1970 + (400 * d) div 146097"
  have e: "400 * d < 146097 * y - 287811090 + 146097"
    using div_upper[of 146097 "400 * d"] by (simp add: y_def)
  have h: "146097 * y - 287519503 \<le> 400 * DayFromYear (y + 2)"
    using DayFromYear_bounds[of "y + 2"] by (simp add: algebra_simps)
  have "d < DayFromYear (y + 2)" using h e by linarith
  then show ?thesis
    unfolding YearFromDay_def Let_def y_def[symmetric] by (auto simp: add.commute)
qed

lemma MonthFromTime_range: "0 \<le> MonthFromTime t \<and> MonthFromTime t < 12"
  by (simp add: MonthFromTime_def Let_def)

lemma MakeDay_roundtrip:
  "MakeDay (YearFromTime t) (MonthFromTime t) (DateFromTime t + n) = Day t + n"
  using MonthFromTime_range[of t]
  by (simp add: MakeDay_def Let_def DateFromTime_def DayWithinYear_def InLeapYear_def)

lemma MakeDate_Day: "MakeDate (Day t + n) (TimeWithinDay t) = t + n * msPerDay"
  by (simp add: MakeDate_def Day_def TimeWithinDay_def algebra_simps)

lemma setUTCDate_shift: "setUTCDate t (getUTCDate t + n) = t + n * msPerDay"
  by (simp add: setUTCDate_def getUTCDate_def MakeDay_roundtrip MakeDate_Day)

lemma setUTCDate_shift_back: "setUTCDate t (getUTCDate t - n) = t - n * msPerDay"
  using setUTCDate_shift[of t "- n"] by simp

lemma setDate_shift: "setDate (fixedZone c) t (getDate (fixedZone c) t + n) = t + n * msPerDay"
  by (simp add: setDate_def getDate_def Let_def MakeDay_roundtrip MakeDate_Day
      UTC_of_local_def LocalTime_def fixedZone_def)

lemma setUTCHours_8: "setUTCHours t 8 0 0 0 = Day t * msPerDay + 28800000"
  by (simp add: setUTCHours_def MakeDate_def MakeTime_def)

lemma Day_shift: "Day (t + n * msPerDay) = Day t + n"
  by (simp add: Day_def msPerDay_def)

lemma Day_bounds: "Day t * msPerDay \<le> t \<and> t < Day t * msPerDay + msPerDay"
  using div_lower[of msPerDay t] div_upper[of msPerDay t]
  by (simp add: Day_def msPerDay_def mult.commute)

lemma Day_shift_back: "Day (t - n * msPerDay) = Day t - n"
  using Day_shift[of t "- n"] by simp

lemma shift_days: "(a * msPerDay + 28800000) + n * msPerDay = (a + n) * msPerDay + 28800000"
  by (simp add: algebra_simps)

lemma future_start: "Day t < dd \<Longrightarrow> t < dd * msPerDay + 28800000"
proof -
  assume "Day t < dd"
  then have "Day t + 1 \<le> dd" by simp
  then have "(Day t + 1) * msPerDay \<le> dd * msPerDay" by (simp add: msPerDay_def)
  moreover have "t < Day t * msPerDay + msPerDay" using Day_bounds[of t] by simp
  ultimately show ?thesis by (simp add: algebra_simps)
qed

lemma Date_UTC_8:
  "Date_UTC y m d 8 0 0 0 = MakeDay (MakeFullYear y) m d * msPerDay + 28800000"
  by (simp add: Date_UTC_def MakeDate_def MakeTime_def)

lemma MakeDay_this_month:
  "MakeDay (YearFromTime t) (MonthFromTime t) d = Day t + (d - DateFromTime t)"
  using MakeDay_roundtrip[of t "d - DateFromTime t"] by simp

lemma DayWithinYear_before_next:
  "MonthFromTime t < 11 \<Longrightarrow> DayWithinYear t < MonthStart (MonthFromTime t + 1) (InLeapYear t)"
  by (simp add: MonthFromTime_def MonthStart_def Let_def split: if_splits)

lemma MakeDay_next_month:
  assumes "1 \<le> d"
  shows "Day t < MakeDay (YearFromTime t) (MonthFromTime t + 1) d"
proof (cases "MonthFromTime t < 11")
  case True
  have r: "0 \<le> MonthFromTime t" using MonthFromTime_range[of t] by simp
  have "(MonthFromTime t + 1) div 12 = 0" "(MonthFromTime t + 1) mod 12 = MonthFromTime t + 1"
    using True r by simp_all
  then have "MakeDay (YearFromTime t) (MonthFromTime t + 1) d
      = DayFromYear (YearFromTime t) + MonthStart (MonthFromTime t + 1) (InLeapYear t) + d - 1"
    by (simp add: MakeDay_def Let_def InLeapYear_def)
  moreover have "Day t = DayFromYear (YearFromTime t) + DayWithinYear t"
    by (simp add: DayWithinYear_def)
  ultimately show ?thesis using DayWithinYear_before_next[OF True] assms by linarith
next
  case False
  then have m: "MonthFromTime t = 11" using MonthFromTime_range[of t] by simp
  have "MakeDay (YearFromTime t) (MonthFromTime t + 1) d = DayFromYear (YearFromTime t + 1) + d - 1"
    by (simp add: m MakeDay_def Let_def MonthStart_def)
  moreover have "Day t < DayFromYear (YearFromTime t + 1)"
    using YearFromDay_upper[of "Day t"] by (simp add: YearFromTime_def)
  ultimately show ?thesis using assms by linarith
qed

lemma DayFromYear_1900: "DayFromYear z + 1 \<le> DayFromYear (1900 + z)"
proof -
  have a: "146097 * z + 277584300 - 287811697 \<le> 400 * DayFromYear (1900 + z)"
    using DayFromYear_bounds[of "1900 + z"] by (simp add: algebra_simps)
  have b: "400 * DayFromYear z \<le> 146097 * z - 287810497"
    using DayFromYear_bounds[of z] by simp
  show ?thesis using a b by linarith
qed

lemma MonthStart_leap:
  "MonthStart mn 0 \<le> MonthStart mn (if c then 1 else 0)
   \<and> MonthStart mn (if c then 1 else 0) \<le> MonthStart mn 0 + 1"
  by (simp add: MonthStart_def)

lemma MakeDay_MakeFullYear: "MakeDay y m d \<le> MakeDay (MakeFullYear y) m d"
proof (cases "0 \<le> y \<and> y \<le> 99")
  case False
  then show ?thesis by (auto simp: MakeFullYear_def)
next
  case True
  define z where "z = y + m div 12"
  have e: "1900 + y + m div 12 = 1900 + z" by (simp add: z_def)
  have "MakeDay y m d = DayFromYear z + MonthStart (m mod 12) (if DaysInYear z = 366 then 1 else 0) + d - 1"
    by (simp add: MakeDay_def Let_def z_def)
  moreover have "MakeDay (MakeFullYear y) m d
      = DayFromYear (1900 + z)
        + MonthStart (m mod 12) (if DaysInYear (1900 + z) = 366 then 1 else 0) + d - 1"
    using True by (simp add: MakeDay_def Let_def MakeFullYear_def e)
  ultimately show ?thesis
    using DayFromYear_1900[of z] MonthStart_leap[of "m mod 12" "DaysInYear z = 366"]
      MonthStart_leap[of "m mod 12" "DaysInYear (1900 + z) = 366"]
    by linarith
qed

lemma getUTCDay_range: "0 \<le> getUTCDay t \<and> getUTCDay t \<le> 6"
  by (simp add: getUTCDay_def WeekDay_def)

lemma indexOf_range: "indexOf xs x = - 1 \<or> (0 \<le> indexOf xs x \<and> indexOf xs x < int (length xs))"
  by (induction xs) (auto simp: Let_def)

lemma indexOf_absent: "indexOf xs x = - 1 \<longleftrightarrow> x \<notin> set xs"
proof (induction xs)
  case Nil
  show ?case by simp
next
  case (Cons y ys)
  have "indexOf ys x = - 1 \<or> 0 \<le> indexOf ys x" using indexOf_range[of ys x] by auto
  then show ?case using Cons by (auto simp: Let_def)
qed

lemma targetDay_range:
  "indexOf daysOfWeek b \<noteq> - 1 \<Longrightarrow> 0 \<le> indexOf daysOfWeek b \<and> indexOf daysOfWeek b \<le> 6"
  using indexOf_range[of daysOfWeek b] by (simp add: daysOfWeek_def)

section \<open>Countdown\<close>

lemma div_range:
  fixes a k n :: int
  assumes "0 \<le> a" "a < k * n" "0 < k"
  shows "0 \<le> a div k \<and> a div k < n"
proof -
  have "k * (a div k) \<le> a" using assms(3) by (rule div_lower)
  then have "k * (a div k) < k * n" using assms(2) by linarith
  then have "a div k < n" using assms(3) by (simp add: mult_less_cancel_left_pos)
  moreover have "0 \<le> a div k" using assms(1,3) by (simp add: pos_imp_zdiv_nonneg_iff)
  ultimately show ?thesis by simp
qed

lemma countdown_sum:
  fixes T :: int
  shows "T div 86400000 * 86400000 + (T mod 86400000) div 3600000 * 3600000
         + (T mod 3600000) div 60000 * 60000 + (T mod 60000) div 1000 * 1000
         = T - T mod 1000"
proof -
  have a: "(T mod 86400000) mod 3600000 = T mod 3600000"
    by (simp add: mod_mod_cancel)
  have b: "(T mod 3600000) mod 60000 = T mod 60000"
    by (simp add: mod_mod_cancel)
  have c: "(T mod 60000) mod 1000 = T mod 1000"
    by (simp add: mod_mod_cancel)
  have 1: "T div 86400000 * 86400000 = T - T mod 86400000"
    by (simp add: minus_mod_eq_div_mult)
  have 2: "(T mod 86400000) div 3600000 * 3600000 = T mod 86400000 - T mod 3600000"
    using minus_mod_eq_div_mult[of "T mod 86400000" 3600000] a by simp
  have 3: "(T mod 3600000) div 60000 * 60000 = T mod 3600000 - T mod 60000"
    using minus_mod_eq_div_mult[of "T mod 3600000" 60000] b by simp
  have 4: "(T mod 60000) div 1000 * 1000 = T mod 60000 - T mod 1000"
    using minus_mod_eq_div_mult[of "T mod 60000" 1000] c by simp
  show ?thesis unfolding 1 2 3 4 by simp
qed

text \<open>
  Claim C7. \<^verbatim>\<open>calculateCountdown(end, reference)\<close> returns all fields zero, \<open>totalMs\<close>
  included, whenever \<open>end \<le> reference\<close>. Otherwise \<open>totalMs\<close> is \<open>end - reference\<close> and
  the other fields are its floor decomposition into days, hours below 24, minutes below
  60 and seconds below 60, so that
  \<open>days*86400000 + hours*3600000 + minutes*60000 + seconds*1000 \<le> totalMs\<close>
  and \<open>totalMs\<close> is less than that sum plus 1000.
\<close>

theorem calculateCountdown_decomposition:
  "(endDate \<le> currentDate \<longrightarrow>
      calculateCountdown endDate currentDate
        = \<lparr>days = 0, hours = 0, minutes = 0, seconds = 0, totalMs = 0\<rparr>)
   \<and> (currentDate < endDate \<longrightarrow>
        (let c = calculateCountdown endDate currentDate
         in totalMs c = endDate - currentDate
            \<and> 0 \<le> days c
            \<and> 0 \<le> hours c \<and> hours c < 24
            \<and> 0 \<le> minutes c \<and> minutes c < 60
            \<and> 0 \<le> seconds c \<and> seconds c < 60
            \<and> days c * 86400000 + hours c * 3600000 + minutes c * 60000 + seconds c * 1000
                  \<le> totalMs c
            \<and> totalMs c
                  < days c * 86400000 + hours c * 3600000 + minutes c * 60000
                    + seconds c * 1000 + 1000))"
proof (intro conjI impI)
  assume "endDate \<le> currentDate"
  then show "calculateCountdown endDate currentDate
        = \<lparr>days = 0, hours = 0, minutes = 0, seconds = 0, totalMs = 0\<rparr>"
    by (simp add: calculateCountdown_def)
next
  assume lt: "currentDate < endDate"
  define T where "T = endDate - currentDate"
  define D where "D = T div 86400000"
  define H where "H = (T mod 86400000) div 3600000"
  define M where "M = (T mod 3600000) div 60000"
  define S where "S = (T mod 60000) div 1000"
  define R where "R = T mod 1000"
  have pos: "0 < T" using lt by (simp add: T_def)
  have c: "calculateCountdown endDate currentDate
      = \<lparr>days = D, hours = H, minutes = M, seconds = S, totalMs = T\<rparr>"
    using pos by (simp add: calculateCountdown_def T_def D_def H_def M_def S_def Let_def)
  have d: "0 \<le> D" using pos by (simp add: D_def pos_imp_zdiv_nonneg_iff)
  have h: "0 \<le> H \<and> H < 24"
    unfolding H_def using div_range[of "T mod 86400000" 3600000 24] by simp
  have m: "0 \<le> M \<and> M < 60"
    unfolding M_def using div_range[of "T mod 3600000" 60000 60] by simp
  have s: "0 \<le> S \<and> S < 60"
    unfolding S_def using div_range[of "T mod 60000" 1000 60] by simp
  have sum: "D * 86400000 + H * 3600000 + M * 60000 + S * 1000 = T - R"
    unfolding D_def H_def M_def S_def R_def by (rule countdown_sum)
  have r: "0 \<le> R \<and> R < 1000"
    by (simp add: R_def)
  have le: "D * 86400000 + H * 3600000 + M * 60000 + S * 1000 \<le> T"
    using sum r by linarith
  have less: "T < D * 86400000 + H * 3600000 + M * 60000 + S * 1000 + 1000"
    using sum r by linarith
  show "let c = calculateCountdown endDate currentDate
         in totalMs c = endDate - currentDate
            \<and> 0 \<le> days c
            \<and> 0 \<le> hours c \<and> hours c < 24
            \<and> 0 \<le> minutes c \<and> minutes c < 60
            \<and> 0 \<le> seconds c \<and> seconds c < 60
            \<and> days c * 86400000 + hours c * 3600000 + minutes c * 60000 + seconds c * 1000
                  \<le> totalMs c
            \<and> totalMs c
                  < days c * 86400000 + hours c * 3600000 + minutes c * 60000
                    + seconds c * 1000 + 1000"
    unfolding c Let_def countdown.select_convs
    using d h m s le less by (simp add: T_def)
qed

theorem calculateCountdown_decomposition_witness:
  "(Date_UTC 2026 0 1 9 0 0 0 < Date_UTC 2026 1 1 8 0 0 0)
   \<and> calculateCountdown (Date_UTC 2026 1 1 8 0 0 0) (Date_UTC 2026 0 1 9 0 0 0)
       = \<lparr>days = 30, hours = 23, minutes = 0, seconds = 0, totalMs = 2674800000\<rparr>
   \<and> (30 * 86400000 + 23 * 3600000 + 0 * 60000 + 0 * 1000 \<le> (2674800000 :: int))
   \<and> ((2674800000 :: int) < 30 * 86400000 + 23 * 3600000 + 0 * 60000 + 0 * 1000 + 1000)
   \<and> (Date_UTC 2026 0 1 9 0 0 0 \<le> Date_UTC 2026 1 1 8 0 0 0)
   \<and> calculateCountdown (Date_UTC 2026 0 1 9 0 0 0) (Date_UTC 2026 1 1 8 0 0 0)
       = \<lparr>days = 0, hours = 0, minutes = 0, seconds = 0, totalMs = 0\<rparr>"
proof -
  have a: "Date_UTC 2026 0 1 9 0 0 0 = 1767258000000" by code_simp
  have b: "Date_UTC 2026 1 1 8 0 0 0 = 1769932800000" by code_simp
  have c: "calculateCountdown 1769932800000 1767258000000
       = \<lparr>days = 30, hours = 23, minutes = 0, seconds = 0, totalMs = 2674800000\<rparr>"
    by (simp add: calculateCountdown_def)
  show ?thesis
    using calculateCountdown_decomposition[of 1769932800000 1767258000000]
      calculateCountdown_decomposition[of 1767258000000 1769932800000]
    unfolding a b c by simp
qed

section \<open>Queries before a configuration is loaded\<close>

text \<open>
  Claim C10. While \<open>eventsConfig\<close> is \<^verbatim>\<open>null\<close>, each of \<^verbatim>\<open>getActiveEvents\<close>,
  \<^verbatim>\<open>getUpcomingEvents\<close> and \<^verbatim>\<open>getCalendarForMonth\<close> returns an empty array and raises
  nothing, and the cache fields stay as they were: \<^verbatim>\<open>getActiveEvents\<close> hands back the
  manager unchanged, and the other two never write to the manager.
\<close>

theorem no_config_empty:
  assumes "eventsConfig this = None"
  shows "getActiveEvents this currentDate forceRefresh = ([], this)
         \<and> getUpcomingEvents tza this currentDate daysAhead = []
         \<and> getCalendarForMonth this year month = []"
  using assms by (simp add: getActiveEvents_def getUpcomingEvents_def getCalendarForMonth_def)

theorem no_config_empty_witness:
  "eventsConfig newManager = None
   \<and> getActiveEvents newManager (Date_UTC 2026 0 1 9 0 0 0) False = ([], newManager)
   \<and> getUpcomingEvents newYork2026 newManager (Date_UTC 2026 0 1 9 0 0 0) 30 = []
   \<and> getCalendarForMonth newManager 2026 0 = []"
proof -
  have n: "eventsConfig newManager = None" by (simp add: newManager_def)
  show ?thesis
    using n no_config_empty[OF n, of "Date_UTC 2026 0 1 9 0 0 0" False newYork2026 30 2026 0]
    by simp
qed

section \<open>Weekly windows\<close>

lemma lastWeekWindow_eq:
  "lastWeekWindow targetDay dur t =
     \<lparr>wstart = Some ((Day t - daysSinceTarget targetDay t) * msPerDay + 28800000),
      wend = Some ((Day t - daysSinceTarget targetDay t + dur) * msPerDay + 28800000)\<rparr>"
  unfolding lastWeekWindow_def Let_def setUTCDate_shift_back setUTCHours_8 setUTCDate_shift
    Day_shift_back shift_days daysSinceTarget_def
  by simp

lemma nextWindow_eq:
  "nextWindow targetDay dur t =
     (let u0 = targetDay - getUTCDay t; u = (if u0 \<le> 0 then u0 + 7 else u0)
      in \<lparr>wstart = Some ((Day t + u) * msPerDay + 28800000),
          wend = Some ((Day t + u + dur) * msPerDay + 28800000)\<rparr>)"
  unfolding nextWindow_def Let_def setUTCDate_shift setUTCHours_8 Day_shift shift_days
  by simp

lemma nextWindow_ahead:
  assumes "0 \<le> targetDay" "targetDay \<le> 6"
  shows "\<exists>s. wstart (nextWindow targetDay dur t) = Some s \<and> t < s
             \<and> wend (nextWindow targetDay dur t) = Some (s + dur * msPerDay)"
proof -
  define u0 where "u0 = targetDay - getUTCDay t"
  define u where "u = (if u0 \<le> 0 then u0 + 7 else u0)"
  have "1 \<le> u" using assms getUTCDay_range[of t] by (auto simp: u_def u0_def)
  moreover have "t < Day t * msPerDay + msPerDay" using Day_bounds[of t] by simp
  ultimately have lt: "t < (Day t + u) * msPerDay + 28800000"
    by (simp add: msPerDay_def algebra_simps)
  have w: "nextWindow targetDay dur t =
      \<lparr>wstart = Some ((Day t + u) * msPerDay + 28800000),
       wend = Some (((Day t + u) * msPerDay + 28800000) + dur * msPerDay)\<rparr>"
    unfolding shift_days by (simp add: nextWindow_eq Let_def u_def u0_def)
  show ?thesis unfolding w using lt by simp
qed

lemma nextWindow_not_containing:
  assumes "0 \<le> targetDay" "targetDay \<le> 6"
  shows "\<not> windowContains (nextWindow targetDay dur t) t"
  using nextWindow_ahead[OF assms, of dur t]
  by (auto simp: windowContains_def date_le_def date_lt_def)

lemma lastWeekWindow_containing:
  assumes "0 < daysSinceTarget targetDay t"
  shows "windowContains (lastWeekWindow targetDay dur t) t
         \<longleftrightarrow> daysSinceTarget targetDay t < dur
              \<or> (daysSinceTarget targetDay t = dur \<and> TimeWithinDay t < 28800000)"
proof -
  define k where "k = daysSinceTarget targetDay t"
  define d where "d = Day t"
  define r where "r = TimeWithinDay t"
  have t: "t = d * 86400000 + r"
    by (simp add: d_def r_def Day_def TimeWithinDay_def msPerDay_def)
  have r: "0 \<le> r \<and> r < 86400000"
    by (simp add: r_def TimeWithinDay_def msPerDay_def)
  have k: "1 \<le> k" using assms by (simp add: k_def)
  have c: "windowContains (lastWeekWindow targetDay dur t) t
         \<longleftrightarrow> (d - k) * 86400000 + 28800000 \<le> t \<and> t < (d - k + dur) * 86400000 + 28800000"
    by (simp add: lastWeekWindow_eq windowContains_def date_le_def date_lt_def k_def d_def
        msPerDay_def)
  have lo: "(d - k) * 86400000 + 28800000 \<le> t"
    using k r unfolding t by (simp add: algebra_simps)
  have hi: "t < (d - k + dur) * 86400000 + 28800000 \<longleftrightarrow> k < dur \<or> (k = dur \<and> r < 28800000)"
  proof -
    consider "k < dur" | "k = dur" | "dur < k" by linarith
    then show ?thesis
    proof cases
      case 1
      then have "1 \<le> dur - k" by simp
      then have "86400000 \<le> (dur - k) * 86400000" by simp
      then show ?thesis using 1 r unfolding t by (simp add: algebra_simps)
    next
      case 2
      then show ?thesis unfolding t by simp
    next
      case 3
      then have "dur - k \<le> - 1" by simp
      then have "(dur - k) * 86400000 \<le> - 86400000" by simp
      then show ?thesis using 3 r unfolding t by (simp add: algebra_simps)
    qed
  qed
  show ?thesis unfolding c using lo hi by (simp add: k_def r_def)
qed

text \<open>
  The statement of claim C4 as the specification words it fails on the code: a weekly
  event of three days starting on Friday is in neither of its two windows on the
  following Tuesday (2026-01-20T12:00Z), in the gap between two occurrences.
\<close>

theorem weekly_gap_between_occurrences:
  "indexOf daysOfWeek ''Friday'' = 5
   \<and> \<not> windowContains (lastWeekWindow 5 3 (Date_UTC 2026 0 20 12 0 0 0)) (Date_UTC 2026 0 20 12 0 0 0)
   \<and> \<not> windowContains (nextWindow 5 3 (Date_UTC 2026 0 20 12 0 0 0)) (Date_UTC 2026 0 20 12 0 0 0)"
  by code_simp

text \<open>
  Claim C4, as amended. For a weekly definition with a recognised day name, any duration
  and any reference instant, the forward window starts strictly after the reference and
  never contains it. When the reference does not fall on the target weekday
  (\<open>daysSinceTarget > 0\<close>), the previous-week window contains the reference exactly when
  \<open>daysSinceTarget < durationDays\<close>, or \<open>daysSinceTarget = durationDays\<close> and the
  reference is before 08:00 UTC, and \<^verbatim>\<open>calculateWeeklyEvent\<close> returns the previous-week
  window in that case and the forward window otherwise. So at most one of the two windows
  contains the reference, none does in the gap between two occurrences, and when one
  does it is the window returned.
\<close>

theorem weekly_window_choice:
  assumes "indexOf daysOfWeek b \<noteq> - 1"
  shows "\<not> windowContains (nextWindow (indexOf daysOfWeek b) dur t) t
         \<and> (0 < daysSinceTarget (indexOf daysOfWeek b) t \<longrightarrow>
              (windowContains (lastWeekWindow (indexOf daysOfWeek b) dur t) t
                 \<longleftrightarrow> daysSinceTarget (indexOf daysOfWeek b) t < dur
                      \<or> (daysSinceTarget (indexOf daysOfWeek b) t = dur
                          \<and> TimeWithinDay t < 8 * 3600000))
              \<and> calculateWeeklyEvent b dur t
                  = Inr (if windowContains (lastWeekWindow (indexOf daysOfWeek b) dur t) t
                         then lastWeekWindow (indexOf daysOfWeek b) dur t
                         else nextWindow (indexOf daysOfWeek b) dur t))"
proof -
  define td where "td = indexOf daysOfWeek b"
  have rng: "0 \<le> td" "td \<le> 6" using targetDay_range[OF assms] by (simp_all add: td_def)
  have a: "\<not> windowContains (nextWindow td dur t) t"
    using rng by (rule nextWindow_not_containing)
  have b: "windowContains (lastWeekWindow td dur t) t
            \<longleftrightarrow> daysSinceTarget td t < dur
                 \<or> (daysSinceTarget td t = dur \<and> TimeWithinDay t < 8 * 3600000)"
    if "0 < daysSinceTarget td t"
    using lastWeekWindow_containing[OF that, of dur] by simp
  have c: "calculateWeeklyEvent b dur t
             = Inr (if windowContains (lastWeekWindow td dur t) t
                    then lastWeekWindow td dur t else nextWindow td dur t)"
    if "0 < daysSinceTarget td t"
  proof (cases "windowContains (lastWeekWindow td dur t) t")
    case True
    then have "daysSinceTarget td t \<le> dur" using b[OF that] by auto
    then show ?thesis
      using True that assms
      by (simp add: calculateWeeklyEvent_def Let_def td_def daysSinceTarget_def windowContains_def)
  next
    case False
    then show ?thesis
      using assms
      by (auto simp add: calculateWeeklyEvent_def Let_def td_def windowContains_def)
  qed
  show ?thesis using a b c unfolding td_def by blast
qed

theorem weekly_window_choice_witness:
  "indexOf daysOfWeek ''Friday'' \<noteq> - 1
   \<and> 0 < daysSinceTarget (indexOf daysOfWeek ''Friday'') (Date_UTC 2026 0 18 12 0 0 0)
   \<and> windowContains (lastWeekWindow (indexOf daysOfWeek ''Friday'') 3 (Date_UTC 2026 0 18 12 0 0 0))
        (Date_UTC 2026 0 18 12 0 0 0)
   \<and> \<not> windowContains (nextWindow (indexOf daysOfWeek ''Friday'') 3 (Date_UTC 2026 0 18 12 0 0 0))
          (Date_UTC 2026 0 18 12 0 0 0)
   \<and> calculateWeeklyEvent ''Friday'' 3 (Date_UTC 2026 0 18 12 0 0 0)
       = Inr \<lparr>wstart = Some (Date_UTC 2026 0 16 8 0 0 0), wend = Some (Date_UTC 2026 0 19 8 0 0 0)\<rparr>"
proof -
  let ?t = "Date_UTC 2026 0 18 12 0 0 0"
  have i: "indexOf daysOfWeek ''Friday'' \<noteq> - 1" by code_simp
  have k: "daysSinceTarget (indexOf daysOfWeek ''Friday'') ?t = 2" by code_simp
  have l: "lastWeekWindow (indexOf daysOfWeek ''Friday'') 3 ?t
           = \<lparr>wstart = Some (Date_UTC 2026 0 16 8 0 0 0), wend = Some (Date_UTC 2026 0 19 8 0 0 0)\<rparr>"
    by code_simp
  note th = weekly_window_choice[OF i, where dur = 3 and t = ?t]
  have c: "windowContains (lastWeekWindow (indexOf daysOfWeek ''Friday'') 3 ?t) ?t"
    using th k by simp
  have r: "calculateWeeklyEvent ''Friday'' 3 ?t
           = Inr (lastWeekWindow (indexOf daysOfWeek ''Friday'') 3 ?t)"
    using th k c by simp
  show ?thesis using i k c th r l by simp
qed

section \<open>The monthly scenario\<close>

text \<open>
  The third part of claim C1 fails on the code: at 2026-02-01T09:00Z the Gold Pass
  (day 1, 31 days) is active, its February occurrence having started at 08:00.
\<close>

theorem goldPass_active_after_february_start:
  "fst (isEventActive (managerWith goldPassConfig) ''Gold Pass'' (Date_UTC 2026 1 1 9 0 0 0))"
  by code_simp

text \<open>
  Claim C1, as amended. For the monthly definition with base date "01" and 31 days: at
  2026-01-01T07:00Z the event is not active; at 2026-01-01T09:00Z it is active with
  window [2026-01-01T08:00Z, 2026-02-01T08:00Z); at 2026-02-01T09:00Z it is active again,
  with window [2026-02-01T08:00Z, 2026-03-04T08:00Z).
\<close>

theorem goldPass_scenario:
  "fst (getActiveEvents (managerWith goldPassConfig) (Date_UTC 2026 0 1 7 0 0 0) False) = []
   \<and> map (\<lambda>a. (a_title a, a_start a, a_end a))
        (fst (getActiveEvents (managerWith goldPassConfig) (Date_UTC 2026 0 1 9 0 0 0) False))
      = [(''Gold Pass'', Some (Date_UTC 2026 0 1 8 0 0 0), Some (Date_UTC 2026 1 1 8 0 0 0))]
   \<and> map (\<lambda>a. (a_title a, a_start a, a_end a))
        (fst (getActiveEvents (managerWith goldPassConfig) (Date_UTC 2026 1 1 9 0 0 0) False))
      = [(''Gold Pass'', Some (Date_UTC 2026 1 1 8 0 0 0), Some (Date_UTC 2026 2 4 8 0 0 0))]"
  by code_simp

section \<open>Activity at the bounds of a window\<close>

lemma getActiveEvents_forced:
  "eventsConfig this = Some cfg \<Longrightarrow> fst (getActiveEvents this t True) = computeActiveEvents cfg t"
  by (simp add: getActiveEvents_def Let_def)

lemma forEachPush_repeatingOf: "forEachPush (repeating_events cfg) f = concat (map f (repeatingOf cfg))"
  by (simp add: forEachPush_def repeatingOf_def split: option.splits)

lemma forEachPush_oneTimeOf: "forEachPush (one_time_events cfg) f = concat (map f (oneTimeOf cfg))"
  by (simp add: forEachPush_def oneTimeOf_def split: option.splits)

lemma computeActiveEvents_set:
  "set (computeActiveEvents cfg t)
     = (\<Union>ev \<in> set (repeatingOf cfg). set (activeRepeating t ev))
       \<union> (\<Union>ot \<in> set (oneTimeOf cfg). set (activeOneTime t ot))"
  by (simp add: computeActiveEvents_def forEachPush_repeatingOf forEachPush_oneTimeOf)

lemma activeRepeating_iff:
  "activeRepeating t ev \<noteq> []
   \<longleftrightarrow> active ev \<noteq> Some False
        \<and> (\<exists>w. calculateRepeatingEventDates ev t = Inr w \<and> windowContains w t)"
  by (auto simp: activeRepeating_def windowContains_def date_lt_def Let_def
      split: sum.splits option.splits)

lemma activeOneTime_iff:
  "activeOneTime t ot \<noteq> []
   \<longleftrightarrow> active ot \<noteq> Some False
        \<and> windowContains \<lparr>wstart = ot_start ot, wend = ot_end ot\<rparr> t"
  by (auto simp: activeOneTime_def windowContains_def date_lt_def Let_def
      split: option.splits)

lemma windowContains_start:
  "wstart w = Some t \<Longrightarrow> date_lt (wstart w) (wend w) \<Longrightarrow> windowContains w t"
  by (simp add: windowContains_def date_le_def date_lt_def split: option.splits)

lemma windowContains_end: "wend w = Some t \<Longrightarrow> \<not> windowContains w t"
  by (simp add: windowContains_def date_lt_def)

lemma activeOneTime_cases:
  "activeOneTime t ot = []
   \<or> (\<exists>e cd ct. activeOneTime t ot =
         [\<lparr>a_title = title ot, a_icon = icon ot, a_image = imageOrNull (image ot),
           a_description = descriptionOrEmpty (description ot),
           a_type = ''one-time'', a_modifier = None,
           a_start = ot_start ot, a_end = ot_end ot,
           a_countdown = cd, a_countdownText = ct\<rparr>])"
  unfolding activeOneTime_def Let_def
  by (cases "ot_end ot") simp_all

lemma activeOneTime_title: "x \<in> set (activeOneTime t ot) \<Longrightarrow> a_title x = title ot"
  using activeOneTime_cases[of t ot] by auto

lemma activeRepeating_cases:
  "activeRepeating t ev = []
   \<or> (\<exists>s e cd ct. activeRepeating t ev =
         [\<lparr>a_title = title ev, a_icon = icon ev, a_image = imageOrNull (image ev),
           a_description = descriptionOrEmpty (description ev),
           a_type = ''repeating'', a_modifier = Some (modifier ev),
           a_start = s, a_end = e,
           a_countdown = cd, a_countdownText = ct\<rparr>])"
proof (cases "calculateRepeatingEventDates ev t")
  case (Inl e)
  then show ?thesis by (simp add: activeRepeating_def)
next
  case (Inr w)
  then show ?thesis
    unfolding activeRepeating_def Let_def
    by (cases "wend w") simp_all
qed

lemma activeRepeating_title:
  assumes "x \<in> set (activeRepeating t ev)"
  shows "a_title x = title ev"
proof -
  have "activeRepeating t ev \<noteq> []" using assms by auto
  then obtain s e cd ct where "activeRepeating t ev =
         [\<lparr>a_title = title ev, a_icon = icon ev, a_image = imageOrNull (image ev),
           a_description = descriptionOrEmpty (description ev),
           a_type = ''repeating'', a_modifier = Some (modifier ev),
           a_start = s, a_end = e,
           a_countdown = cd, a_countdownText = ct\<rparr>]"
    using activeRepeating_cases[of t ev] by blast
  then have "x = \<lparr>a_title = title ev, a_icon = icon ev, a_image = imageOrNull (image ev),
           a_description = descriptionOrEmpty (description ev),
           a_type = ''repeating'', a_modifier = Some (modifier ev),
           a_start = s, a_end = e,
           a_countdown = cd, a_countdownText = ct\<rparr>"
    using assms by simp
  then show ?thesis by simp
qed

lemma nonempty_member: "xs \<noteq> [] \<longleftrightarrow> (\<exists>x. x \<in> set xs)"
  by (cases xs) auto

lemma isEventActive_fresh:
  assumes "eventsConfig this = Some cfg" "cachedActiveEvents this = None"
  shows "fst (isEventActive this ttl t)
         \<longleftrightarrow> (\<exists>ev \<in> set (repeatingOf cfg). title ev = ttl \<and> activeRepeating t ev \<noteq> [])
              \<or> (\<exists>ot \<in> set (oneTimeOf cfg). title ot = ttl \<and> activeOneTime t ot \<noteq> [])"
proof -
  have g: "getActiveEvents this t False
      = (computeActiveEvents cfg t,
         this\<lparr>cachedActiveEvents := Some (computeActiveEvents cfg t), lastUpdateTime := Some t\<rparr>)"
    using assms by (simp add: getActiveEvents_def Let_def)
  have "fst (isEventActive this ttl t) \<longleftrightarrow> (\<exists>x \<in> set (computeActiveEvents cfg t). a_title x = ttl)"
    by (simp add: isEventActive_def g list_ex_iff)
  also have "\<dots> \<longleftrightarrow> (\<exists>ev \<in> set (repeatingOf cfg). title ev = ttl \<and> activeRepeating t ev \<noteq> [])
              \<or> (\<exists>ot \<in> set (oneTimeOf cfg). title ot = ttl \<and> activeOneTime t ot \<noteq> [])"
    unfolding computeActiveEvents_set nonempty_member
    using activeRepeating_title activeOneTime_title by fastforce
  finally show ?thesis .
qed

text \<open>
  Claim C6 at a failing input. The Raid Weekend (weekly, Friday, three days) has the
  occurrence [Fri 2026-01-16T08:00Z, Mon 2026-01-19T08:00Z), which
  \<^verbatim>\<open>calculateWeeklyEvent\<close> itself returns for a reference on Saturday. At a reference
  equal to the start of that window, and four hours later on the same Friday, the callback
  of \<^verbatim>\<open>getActiveEvents\<close> pushes nothing and \<^verbatim>\<open>isEventActive\<close> answers false; on
  Saturday it answers true. On the target weekday \<open>daysSinceTarget\<close> is 0, the look-back
  is skipped and the window is projected to the next week.
\<close>

theorem weekly_event_inactive_at_occurrence_start:
  "calculateWeeklyEvent ''Friday'' 3 (Date_UTC 2026 0 17 12 0 0 0)
     = Inr \<lparr>wstart = Some (Date_UTC 2026 0 16 8 0 0 0), wend = Some (Date_UTC 2026 0 19 8 0 0 0)\<rparr>
   \<and> calculateWeeklyEvent ''Friday'' 3 (Date_UTC 2026 0 16 8 0 0 0)
     = Inr \<lparr>wstart = Some (Date_UTC 2026 0 23 8 0 0 0), wend = Some (Date_UTC 2026 0 26 8 0 0 0)\<rparr>
   \<and> activeRepeating (Date_UTC 2026 0 16 8 0 0 0) raidWeekend = []
   \<and> \<not> fst (isEventActive (managerWith exampleConfig) ''Raid Weekend'' (Date_UTC 2026 0 16 8 0 0 0))
   \<and> \<not> fst (isEventActive (managerWith exampleConfig) ''Raid Weekend'' (Date_UTC 2026 0 16 12 0 0 0))
   \<and> fst (isEventActive (managerWith exampleConfig) ''Raid Weekend'' (Date_UTC 2026 0 17 12 0 0 0))"
  by code_simp

section \<open>Upcoming events\<close>

lemma monthly_window_ends_after:
  assumes p: "parseInt10 b = Some dm" and dge: "1 \<le> dm" and dur: "0 < dur"
  shows "\<exists>s e. calculateMonthlyEvent b dur t = \<lparr>wstart = Some s, wend = Some e\<rparr> \<and> t < e"
proof -
  define y where "y = YearFromTime t"
  define m where "m = MonthFromTime t"
  define s1 where "s1 = Date_UTC y m dm 8 0 0 0"
  define s2 where "s2 = Date_UTC y (m + 1) dm 8 0 0 0"
  define start where "start =
     (if DateFromTime t < dm then s1
      else if s1 \<le> t \<and> t < s1 + dur * msPerDay then s1 else s2)"
  have w: "calculateMonthlyEvent b dur t
      = \<lparr>wstart = Some start, wend = Some (start + dur * msPerDay)\<rparr>"
    unfolding calculateMonthlyEvent_def p Let_def setUTCDate_shift
    by (simp add: getUTCFullYear_def getUTCMonth_def getUTCDate_def start_def s1_def s2_def
        y_def m_def)
  have pos: "0 < dur * msPerDay" using dur by (simp add: msPerDay_def)
  have f1: "t < s1" if "DateFromTime t < dm"
  proof -
    have "Day t < MakeDay y m dm" using that by (simp add: y_def m_def MakeDay_this_month)
    then have "Day t < MakeDay (MakeFullYear y) m dm"
      using MakeDay_MakeFullYear[of y m dm] by linarith
    then show ?thesis unfolding s1_def Date_UTC_8 by (rule future_start)
  qed
  have f2: "t < s2"
  proof -
    have "Day t < MakeDay y (m + 1) dm" using MakeDay_next_month[OF dge, of t] by (simp add: y_def m_def)
    then have "Day t < MakeDay (MakeFullYear y) (m + 1) dm"
      using MakeDay_MakeFullYear[of y "m + 1" dm] by linarith
    then show ?thesis unfolding s2_def Date_UTC_8 by (rule future_start)
  qed
  have "t < start + dur * msPerDay"
    using f1 f2 pos unfolding start_def by (auto split: if_splits)
  then show ?thesis using w by simp
qed

lemma weekly_window_ends_after:
  assumes dur: "0 < dur" and w: "calculateWeeklyEvent b dur t = Inr w"
  shows "date_lt (Some t) (wend w)"
proof -
  define td where "td = indexOf daysOfWeek b"
  have v: "td \<noteq> - 1" using w by (auto simp: calculateWeeklyEvent_def Let_def td_def)
  then have rng: "0 \<le> td" "td \<le> 6" using targetDay_range[of b] by (simp_all add: td_def)
  have "w = lastWeekWindow td dur t \<and> date_lt (Some t) (wend (lastWeekWindow td dur t))
        \<or> w = nextWindow td dur t"
    using w v by (auto simp: calculateWeeklyEvent_def Let_def td_def split: if_splits)
  moreover have "date_lt (Some t) (wend (nextWindow td dur t))"
  proof -
    obtain s where s: "t < s" "wend (nextWindow td dur t) = Some (s + dur * msPerDay)"
      using nextWindow_ahead[OF rng, of dur t] by blast
    have "0 < dur * msPerDay" using dur by (simp add: msPerDay_def)
    then show ?thesis using s by (simp add: date_lt_def)
  qed
  ultimately show ?thesis by auto
qed

lemma repeating_window_ends_after:
  assumes wf: "wellFormedRepeating ev"
    and w: "calculateRepeatingEventDates ev t = Inr w"
    and s: "wstart w \<noteq> None"
  shows "date_lt (Some t) (wend w)"
proof (cases "modifier ev = ''monthly''")
  case True
  then have m: "w = calculateMonthlyEvent (baseDate ev) (durationDays ev) t"
    using w by (simp add: calculateRepeatingEventDates_def)
  show ?thesis
  proof (cases "parseInt10 (baseDate ev)")
    case None
    then show ?thesis using s m by (simp add: calculateMonthlyEvent_def)
  next
    case (Some dm)
    then have "1 \<le> dm" "0 < durationDays ev" using wf True by (simp_all add: wellFormedRepeating_def)
    then show ?thesis
      using monthly_window_ends_after[OF Some, of "durationDays ev" t] m
      by (auto simp: date_lt_def)
  qed
next
  case False
  then have "calculateWeeklyEvent (baseDate ev) (durationDays ev) t = Inr w"
    using w by (auto simp: calculateRepeatingEventDates_def split: if_splits)
  moreover have "0 < durationDays ev" using wf by (simp add: wellFormedRepeating_def)
  ultimately show ?thesis by (rule weekly_window_ends_after[rotated])
qed

lemma upcomingRepeating_spec:
  assumes "wellFormedRepeating ev"
  shows "upcomingRepeating t (t + n * msPerDay) ev = spec_upcomingRepeating t n ev"
proof (cases "calculateRepeatingEventDates ev t")
  case (Inl e)
  then show ?thesis by (simp add: upcomingRepeating_def spec_upcomingRepeating_def)
next
  case (Inr w)
  have "date_lt (wstart w) (Some (t + n * msPerDay)) \<longleftrightarrow> overlapsHorizon w t n"
  proof
    assume a: "date_lt (wstart w) (Some (t + n * msPerDay))"
    then have "wstart w \<noteq> None" by (auto simp: date_lt_def split: option.splits)
    then have "date_lt (Some t) (wend w)" using repeating_window_ends_after[OF assms Inr] by simp
    then show "overlapsHorizon w t n" using a by (simp add: overlapsHorizon_def)
  next
    assume "overlapsHorizon w t n"
    then show "date_lt (wstart w) (Some (t + n * msPerDay))" by (simp add: overlapsHorizon_def)
  qed
  then show ?thesis using Inr by (simp add: upcomingRepeating_def spec_upcomingRepeating_def)
qed

lemma upcomingOneTime_spec:
  "upcomingOneTime t (t + n * msPerDay) ev = spec_upcomingOneTime t n ev"
  by (simp add: upcomingOneTime_def spec_upcomingOneTime_def overlapsHorizon_def Let_def)

lemma spec_upcoming_overlap:
  assumes "u \<in> set (spec_getUpcomingEvents cfg t n)"
  shows "date_lt (u_start u) (Some (t + n * msPerDay)) \<and> date_lt (Some t) (u_end u)"
proof -
  have "(\<exists>ev \<in> set (repeatingOf cfg). u \<in> set (spec_upcomingRepeating t n ev))
        \<or> (\<exists>ev \<in> set (oneTimeOf cfg). u \<in> set (spec_upcomingOneTime t n ev))"
    using assms by (auto simp: spec_getUpcomingEvents_def)
  then show ?thesis
  proof
    assume "\<exists>ev \<in> set (repeatingOf cfg). u \<in> set (spec_upcomingRepeating t n ev)"
    then obtain ev where "u \<in> set (spec_upcomingRepeating t n ev)" by blast
    then show ?thesis
      by (auto simp: spec_upcomingRepeating_def overlapsHorizon_def repeatingUpcomingEntry_def
          split: if_splits sum.splits)
  next
    assume "\<exists>ev \<in> set (oneTimeOf cfg). u \<in> set (spec_upcomingOneTime t n ev)"
    then obtain ev where "u \<in> set (spec_upcomingOneTime t n ev)" by blast
    then show ?thesis
      by (auto simp: spec_upcomingOneTime_def overlapsHorizon_def oneTimeUpcomingEntry_def
          split: if_splits)
  qed
qed

lemma upcomingEvent_v2_member:
  "u \<in> set (upcomingEvent_v2 t (t + n * msPerDay) ev)
   \<longleftrightarrow> active ev \<noteq> Some False
        \<and> (\<exists>w. eventDates_v2 ev t = Some (Inr w) \<and> overlapsHorizon w t n
                \<and> u = upcomingEntry_v2 ev w t)"
proof (cases "eventDates_v2 ev t")
  case None
  then show ?thesis by (simp add: upcomingEvent_v2_def)
next
  case (Some r)
  then show ?thesis
    by (cases r) (auto simp: upcomingEvent_v2_def overlapsHorizon_def)
qed

lemma getUpcomingEvents_v2_member:
  "u \<in> set (getUpcomingEvents_v2 (fixedZone c) (Some cfg) t n)
   \<longleftrightarrow> (\<exists>ev \<in> set (eventsOf_v2 cfg).
          active ev \<noteq> Some False
          \<and> (\<exists>w. eventDates_v2 ev t = Some (Inr w) \<and> overlapsHorizon w t n
                  \<and> u = upcomingEntry_v2 ev w t))"
proof -
  have "u \<in> set (getUpcomingEvents_v2 (fixedZone c) (Some cfg) t n)
        \<longleftrightarrow> (\<exists>ev \<in> set (eventsOf_v2 cfg). u \<in> set (upcomingEvent_v2 t (t + n * msPerDay) ev))"
    unfolding getUpcomingEvents_v2_def Let_def setDate_shift option.case
    by (auto simp: forEachPush_def eventsOf_v2_def split: option.splits)
  then show ?thesis unfolding upcomingEvent_v2_member .
qed

text \<open>
  Where the overlap rule does hold: in a host zone without transitions the horizon is
  \<open>reference + daysAhead * 86400000\<close>, and then the first version returns exactly the
  overlapping definitions provided its repeating definitions satisfy the invariants of
  the data model, and the later version does so for every configuration.
\<close>

lemma getUpcomingEvents_fixedZone:
  assumes cfg: "eventsConfig this = Some cfg"
    and wf: "\<forall>ev \<in> set (repeatingOf cfg). wellFormedRepeating ev"
  shows "getUpcomingEvents (fixedZone c) this t n = spec_getUpcomingEvents cfg t n"
proof -
  have r: "map (upcomingRepeating t (t + n * msPerDay)) (repeatingOf cfg)
         = map (spec_upcomingRepeating t n) (repeatingOf cfg)"
    using wf by (simp add: upcomingRepeating_spec)
  have o: "map (upcomingOneTime t (t + n * msPerDay)) (oneTimeOf cfg)
         = map (spec_upcomingOneTime t n) (oneTimeOf cfg)"
    by (simp add: upcomingOneTime_spec)
  show ?thesis
    unfolding getUpcomingEvents_def cfg Let_def setDate_shift option.case
      forEachPush_repeatingOf forEachPush_oneTimeOf r o spec_getUpcomingEvents_def
    by (rule refl)
qed

text \<open>
  Outside those invariants the first version returns a window that has already ended:
  its callback for repeating events tests only \<^verbatim>\<open>start < endDate\<close>, while its callback
  for one-time events and the later version also test \<^verbatim>\<open>end > currentDate\<close>. With base
  date "-40" and one day, at 2026-01-21T12:00Z the window is
  [2025-12-22T08:00Z, 2025-12-23T08:00Z).
\<close>

lemma first_version_returns_ended_window:
  "map (\<lambda>u. (u_title u, u_start u, u_end u, isActive u))
     (getUpcomingEvents (fixedZone 0)
        (managerWith \<lparr>repeating_events = Some [goldPass\<lparr>baseDate := ''-40'', durationDays := 1\<rparr>],
                      one_time_events = None\<rparr>)
        (Date_UTC 2026 0 21 12 0 0 0) 30)
     = [(''Gold Pass'', Some (Date_UTC 2025 11 22 8 0 0 0), Some (Date_UTC 2025 11 23 8 0 0 0), False)]
   \<and> getUpcomingEvents_v2 (fixedZone 0)
        (Some \<lparr>repeating_events_v2 =
                  Some [goldPass_v2\<lparr>baseDate_v2 := Some ''-40'', durationDays_v2 := Some 1\<rparr>],
               non_repeating_events = None\<rparr>)
        (Date_UTC 2026 0 21 12 0 0 0) 30
     = []"
  by code_simp

text \<open>
  Claim C2 at a failing input. The claim: for every reference instant and \<open>daysAhead\<close>,
  \<^verbatim>\<open>getUpcomingEvents\<close> returns exactly the definitions that are not soft-deleted and
  whose window has \<open>window.start < reference + daysAhead days\<close> and
  \<open>window.end > reference\<close>. In a host in America/New_York, at 2026-03-07T12:00Z with
  \<open>daysAhead = 1\<close>, the one-time event [2026-03-08T11:30Z, 2026-03-09T08:00Z) meets that
  condition, and neither version returns it: \<^verbatim>\<open>setDate(getDate() + 1)\<close> is local-time
  arithmetic, daylight time starts on 8 March, and the horizon is 2026-03-08T11:00Z,
  23 hours after the reference. In UTC the same call returns the event.
\<close>

theorem upcoming_horizon_shortened_by_daylight_saving:
  "active marchBoosts \<noteq> Some False
   \<and> overlapsHorizon \<lparr>wstart = ot_start marchBoosts, wend = ot_end marchBoosts\<rparr>
        (Date_UTC 2026 2 7 12 0 0 0) 1
   \<and> setDate newYork2026 (Date_UTC 2026 2 7 12 0 0 0)
        (getDate newYork2026 (Date_UTC 2026 2 7 12 0 0 0) + 1)
      = Date_UTC 2026 2 8 11 0 0 0
   \<and> getUpcomingEvents newYork2026
        (managerWith \<lparr>repeating_events = None, one_time_events = Some [marchBoosts]\<rparr>)
        (Date_UTC 2026 2 7 12 0 0 0) 1
      = []
   \<and> getUpcomingEvents_v2 newYork2026
        (Some \<lparr>repeating_events_v2 = None, non_repeating_events = Some [marchBoosts_v2]\<rparr>)
        (Date_UTC 2026 2 7 12 0 0 0) 1
      = []
   \<and> map u_title
        (getUpcomingEvents (fixedZone 0)
           (managerWith \<lparr>repeating_events = None, one_time_events = Some [marchBoosts]\<rparr>)
           (Date_UTC 2026 2 7 12 0 0 0) 1)
      = [''1 Gem Boosts'']"
  by code_simp

section \<open>Soft-deleted definitions\<close>

lemma concat_map_filter_empty:
  assumes "\<And>x. \<not> P x \<Longrightarrow> f x = []"
  shows "concat (map f (filter P xs)) = concat (map f xs)"
  using assms by (induction xs) auto

lemma forEachPush_filter:
  assumes "\<And>x. \<not> P x \<Longrightarrow> f x = []"
  shows "forEachPush (map_option (filter P) arr) f = forEachPush arr f"
  using concat_map_filter_empty[of P f, OF assms]
  by (cases arr) (simp_all add: forEachPush_def)

lemma activeRepeating_inactive: "active ev = Some False \<Longrightarrow> activeRepeating t ev = []"
  by (simp add: activeRepeating_def)

lemma activeOneTime_inactive: "active ev = Some False \<Longrightarrow> activeOneTime t ev = []"
  by (simp add: activeOneTime_def)

lemma upcomingRepeating_inactive: "active ev = Some False \<Longrightarrow> upcomingRepeating t e ev = []"
  by (simp add: upcomingRepeating_def)

lemma upcomingOneTime_inactive: "active ev = Some False \<Longrightarrow> upcomingOneTime t e ev = []"
  by (simp add: upcomingOneTime_def)

lemma calendarRepeating_inactive: "active ev = Some False \<Longrightarrow> calendarRepeating ms me ev = []"
  by (simp add: calendarRepeating_def)

lemma calendarOneTime_inactive: "active ev = Some False \<Longrightarrow> calendarOneTime ms me ev = []"
  by (simp add: calendarOneTime_def)

lemma computeActiveEvents_withoutInactive:
  "computeActiveEvents (withoutInactive cfg) t = computeActiveEvents cfg t"
proof -
  have r: "forEachPush (map_option (filter (\<lambda>e. active e \<noteq> Some False)) (repeating_events cfg))
             (activeRepeating t)
           = forEachPush (repeating_events cfg) (activeRepeating t)"
    by (rule forEachPush_filter) (simp add: activeRepeating_inactive)
  have o: "forEachPush (map_option (filter (\<lambda>e. active e \<noteq> Some False)) (one_time_events cfg))
             (activeOneTime t)
           = forEachPush (one_time_events cfg) (activeOneTime t)"
    by (rule forEachPush_filter) (simp add: activeOneTime_inactive)
  show ?thesis by (simp add: computeActiveEvents_def withoutInactive_def r o)
qed

lemma upcoming_withoutInactive:
  "forEachPush (repeating_events (withoutInactive cfg)) (upcomingRepeating t e)
     = forEachPush (repeating_events cfg) (upcomingRepeating t e)
   \<and> forEachPush (one_time_events (withoutInactive cfg)) (upcomingOneTime t e)
     = forEachPush (one_time_events cfg) (upcomingOneTime t e)"
proof -
  have r: "forEachPush (map_option (filter (\<lambda>e. active e \<noteq> Some False)) (repeating_events cfg))
             (upcomingRepeating t e)
           = forEachPush (repeating_events cfg) (upcomingRepeating t e)"
    by (rule forEachPush_filter) (simp add: upcomingRepeating_inactive)
  have o: "forEachPush (map_option (filter (\<lambda>e. active e \<noteq> Some False)) (one_time_events cfg))
             (upcomingOneTime t e)
           = forEachPush (one_time_events cfg) (upcomingOneTime t e)"
    by (rule forEachPush_filter) (simp add: upcomingOneTime_inactive)
  show ?thesis by (simp add: withoutInactive_def r o)
qed

lemma calendar_withoutInactive:
  "forEachPush (repeating_events (withoutInactive cfg)) (calendarRepeating ms me)
     = forEachPush (repeating_events cfg) (calendarRepeating ms me)
   \<and> forEachPush (one_time_events (withoutInactive cfg)) (calendarOneTime ms me)
     = forEachPush (one_time_events cfg) (calendarOneTime ms me)"
proof -
  have r: "forEachPush (map_option (filter (\<lambda>e. active e \<noteq> Some False)) (repeating_events cfg))
             (calendarRepeating ms me)
           = forEachPush (repeating_events cfg) (calendarRepeating ms me)"
    by (rule forEachPush_filter) (simp add: calendarRepeating_inactive)
  have o: "forEachPush (map_option (filter (\<lambda>e. active e \<noteq> Some False)) (one_time_events cfg))
             (calendarOneTime ms me)
           = forEachPush (one_time_events cfg) (calendarOneTime ms me)"
    by (rule forEachPush_filter) (simp add: calendarOneTime_inactive)
  show ?thesis by (simp add: withoutInactive_def r o)
qed

lemma getActiveEvents_fst:
  "eventsConfig this = Some cfg \<Longrightarrow>
   fst (getActiveEvents this t force) =
     (if \<not> force \<and> cachedActiveEvents this \<noteq> None \<and> lastUpdateTime this \<noteq> None
         \<and> the (lastUpdateTime this) \<noteq> 0 \<and> t - the (lastUpdateTime this) < 1000
      then the (cachedActiveEvents this) else computeActiveEvents cfg t)"
  by (auto simp: getActiveEvents_def Let_def split: option.splits)

text \<open>
  Claim C9. A definition with \<open>active = false\<close> contributes nothing to any query: each
  callback pushes no entry for it, whatever the reference instant or month, and the
  result of each of \<^verbatim>\<open>getActiveEvents\<close>, \<^verbatim>\<open>getUpcomingEvents\<close> and
  \<^verbatim>\<open>getCalendarForMonth\<close> is the result for the configuration with all such definitions
  taken out.
\<close>

theorem soft_deleted_excluded:
  "fst (getActiveEvents (this\<lparr>eventsConfig := Some (withoutInactive cfg)\<rparr>) t force)
     = fst (getActiveEvents (this\<lparr>eventsConfig := Some cfg\<rparr>) t force)
   \<and> getUpcomingEvents tza (this\<lparr>eventsConfig := Some (withoutInactive cfg)\<rparr>) t n
     = getUpcomingEvents tza (this\<lparr>eventsConfig := Some cfg\<rparr>) t n
   \<and> getCalendarForMonth (this\<lparr>eventsConfig := Some (withoutInactive cfg)\<rparr>) y m
     = getCalendarForMonth (this\<lparr>eventsConfig := Some cfg\<rparr>) y m
   \<and> (active ev = Some False \<longrightarrow>
        activeRepeating t ev = [] \<and> upcomingRepeating t e ev = []
        \<and> calendarRepeating ms me ev = [])
   \<and> (active ot = Some False \<longrightarrow>
        activeOneTime t ot = [] \<and> upcomingOneTime t e ot = []
        \<and> calendarOneTime ms me ot = [])"
proof -
  have a: "fst (getActiveEvents (this\<lparr>eventsConfig := Some (withoutInactive cfg)\<rparr>) t force)
     = fst (getActiveEvents (this\<lparr>eventsConfig := Some cfg\<rparr>) t force)"
    by (simp add: getActiveEvents_fst computeActiveEvents_withoutInactive)
  have u: "getUpcomingEvents tza (this\<lparr>eventsConfig := Some (withoutInactive cfg)\<rparr>) t n
     = getUpcomingEvents tza (this\<lparr>eventsConfig := Some cfg\<rparr>) t n"
    by (simp add: getUpcomingEvents_def Let_def upcoming_withoutInactive)
  have c: "getCalendarForMonth (this\<lparr>eventsConfig := Some (withoutInactive cfg)\<rparr>) y m
     = getCalendarForMonth (this\<lparr>eventsConfig := Some cfg\<rparr>) y m"
    by (simp add: getCalendarForMonth_def Let_def calendar_withoutInactive)
  show ?thesis
    using a u c
    by (simp add: activeRepeating_inactive upcomingRepeating_inactive calendarRepeating_inactive
        activeOneTime_inactive upcomingOneTime_inactive calendarOneTime_inactive)
qed

theorem soft_deleted_excluded_witness:
  "active (goldPass\<lparr>active := Some False\<rparr>) = Some False
   \<and> active (gemBoosts\<lparr>active := Some False\<rparr>) = Some False
   \<and> activeRepeating (Date_UTC 2026 0 18 12 0 0 0) (goldPass\<lparr>active := Some False\<rparr>) = []
   \<and> activeOneTime (Date_UTC 2026 0 18 12 0 0 0) (gemBoosts\<lparr>active := Some False\<rparr>) = []
   \<and> map a_title (computeActiveEvents exampleConfig (Date_UTC 2026 0 18 12 0 0 0))
       = [''Raid Weekend'', ''1 Gem Boosts'', ''Gold Pass'']
   \<and> map a_title
        (fst (getActiveEvents
               (managerWith
                  \<lparr>repeating_events = Some [goldPass\<lparr>active := Some False\<rparr>, raidWeekend],
                   one_time_events = Some [gemBoosts\<lparr>active := Some False\<rparr>]\<rparr>)
               (Date_UTC 2026 0 18 12 0 0 0) False))
       = [''Raid Weekend'']"
proof -
  let ?t = "Date_UTC 2026 0 18 12 0 0 0"
  let ?cfg = "\<lparr>repeating_events = Some [goldPass\<lparr>active := Some False\<rparr>, raidWeekend],
                   one_time_events = Some [gemBoosts\<lparr>active := Some False\<rparr>]\<rparr>"
  have a: "active (goldPass\<lparr>active := Some False\<rparr>) = Some False" by simp
  have b: "active (gemBoosts\<lparr>active := Some False\<rparr>) = Some False" by simp
  note th = soft_deleted_excluded[where this = newManager and cfg = ?cfg and t = ?t
      and force = False and ev = "goldPass\<lparr>active := Some False\<rparr>"
      and ot = "gemBoosts\<lparr>active := Some False\<rparr>"]
  have w: "withoutInactive ?cfg = \<lparr>repeating_events = Some [raidWeekend], one_time_events = Some []\<rparr>"
    by code_simp
  have v: "map a_title (fst (getActiveEvents
             (newManager\<lparr>eventsConfig := Some \<lparr>repeating_events = Some [raidWeekend], one_time_events = Some []\<rparr>\<rparr>)
             ?t False)) = [''Raid Weekend'']"
    by code_simp
  have full: "map a_title (computeActiveEvents exampleConfig ?t)
       = [''Raid Weekend'', ''1 Gem Boosts'', ''Gold Pass'']"
    by code_simp
  have q: "map a_title (fst (getActiveEvents (managerWith ?cfg) ?t False)) = [''Raid Weekend'']"
    using th v unfolding w managerWith_def by simp
  show ?thesis using a b th q full by simp
qed

section \<open>Malformed definitions\<close>

lemma malformed_error:
  assumes "malformed ev"
  shows "calculateRepeatingEventDates ev t
         = Inl (Error (if modifier ev = ''weekly''
                       then ''Invalid day of week: '' @ baseDate ev
                       else ''Unknown modifier: '' @ modifier ev))"
proof (cases "modifier ev = ''weekly''")
  case True
  then have "indexOf daysOfWeek (baseDate ev) = - 1"
    using assms by (simp add: malformed_def indexOf_absent)
  then show ?thesis using True
    by (simp add: calculateRepeatingEventDates_def calculateWeeklyEvent_def)
next
  case False
  then show ?thesis using assms
    by (auto simp: malformed_def calculateRepeatingEventDates_def)
qed

lemma activeRepeating_malformed: "malformed ev \<Longrightarrow> activeRepeating t ev = []"
  by (simp add: activeRepeating_def malformed_error)

lemma upcomingRepeating_malformed: "malformed ev \<Longrightarrow> upcomingRepeating t e ev = []"
  by (simp add: upcomingRepeating_def malformed_error)

lemma weeklySearch_malformed: "malformed ev \<Longrightarrow> weeklySearch ev ms me sd = []"
  by (subst weeklySearch.simps) (simp add: malformed_error)

lemma calendarRepeating_malformed: "malformed ev \<Longrightarrow> calendarRepeating ms me ev = []"
  by (simp add: calendarRepeating_def malformed_error weeklySearch_malformed)

text \<open>
  Claim C8. Computing a window for a definition whose modifier is neither "monthly" nor
  "weekly", or that is weekly with a base date that is none of the seven day names,
  raises an error whose message names the offending value. Each batch query skips only
  that definition and still returns the results of every other one: a recomputed
  \<^verbatim>\<open>getActiveEvents\<close> is the sorted list of the entries pushed for the remaining
  definitions, \<^verbatim>\<open>getUpcomingEvents\<close> likewise, and \<^verbatim>\<open>getCalendarForMonth\<close> is the list
  of their markers in order; and each query returns what it returns for the
  configuration without the malformed definition.
\<close>

theorem malformed_definition_skipped:
  assumes "malformed ev"
  shows "calculateRepeatingEventDates ev t
           = Inl (Error (if modifier ev = ''weekly''
                         then ''Invalid day of week: '' @ baseDate ev
                         else ''Unknown modifier: '' @ modifier ev))
         \<and> fst (getActiveEvents
                  (this\<lparr>eventsConfig := Some (cfg\<lparr>repeating_events := Some (xs @ ev # ys)\<rparr>)\<rparr>)
                  t True)
           = sort_key (\<lambda>a. totalMs (a_countdown a))
               (concat (map (activeRepeating t) (xs @ ys))
                @ concat (map (activeOneTime t) (oneTimeOf cfg)))
         \<and> getUpcomingEvents tza
              (this\<lparr>eventsConfig := Some (cfg\<lparr>repeating_events := Some (xs @ ev # ys)\<rparr>)\<rparr>) t n
           = sort_key (\<lambda>u. getTime (u_start u))
               (concat (map (upcomingRepeating t (setDate tza t (getDate tza t + n))) (xs @ ys))
                @ concat (map (upcomingOneTime t (setDate tza t (getDate tza t + n)))
                            (oneTimeOf cfg)))
         \<and> getCalendarForMonth
              (this\<lparr>eventsConfig := Some (cfg\<lparr>repeating_events := Some (xs @ ev # ys)\<rparr>)\<rparr>) y m
           = concat (map (calendarRepeating (Date_UTC y m 1 0 0 0 0)
                            (Date_UTC y (m + 1) 0 23 59 59 0)) (xs @ ys))
             @ concat (map (calendarOneTime (Date_UTC y m 1 0 0 0 0)
                              (Date_UTC y (m + 1) 0 23 59 59 0)) (oneTimeOf cfg))
         \<and> fst (getActiveEvents
                  (this\<lparr>eventsConfig := Some (cfg\<lparr>repeating_events := Some (xs @ ev # ys)\<rparr>)\<rparr>)
                  t force)
           = fst (getActiveEvents
                  (this\<lparr>eventsConfig := Some (cfg\<lparr>repeating_events := Some (xs @ ys)\<rparr>)\<rparr>)
                  t force)
         \<and> getUpcomingEvents tza
              (this\<lparr>eventsConfig := Some (cfg\<lparr>repeating_events := Some (xs @ ev # ys)\<rparr>)\<rparr>) t n
           = getUpcomingEvents tza
              (this\<lparr>eventsConfig := Some (cfg\<lparr>repeating_events := Some (xs @ ys)\<rparr>)\<rparr>) t n
         \<and> getCalendarForMonth
              (this\<lparr>eventsConfig := Some (cfg\<lparr>repeating_events := Some (xs @ ev # ys)\<rparr>)\<rparr>) y m
           = getCalendarForMonth
              (this\<lparr>eventsConfig := Some (cfg\<lparr>repeating_events := Some (xs @ ys)\<rparr>)\<rparr>) y m"
proof -
  have o: "one_time_events (cfg\<lparr>repeating_events := Some (xs @ ev # ys)\<rparr>) = one_time_events cfg"
    by simp
  have a: "computeActiveEvents (cfg\<lparr>repeating_events := Some (xs @ ev # ys)\<rparr>) t
         = sort_key (\<lambda>a. totalMs (a_countdown a))
               (concat (map (activeRepeating t) (xs @ ys))
                @ concat (map (activeOneTime t) (oneTimeOf cfg)))"
    unfolding computeActiveEvents_def o forEachPush_oneTimeOf
    by (simp add: forEachPush_def activeRepeating_malformed[OF assms])
  have a': "computeActiveEvents (cfg\<lparr>repeating_events := Some (xs @ ev # ys)\<rparr>) t
         = computeActiveEvents (cfg\<lparr>repeating_events := Some (xs @ ys)\<rparr>) t"
    by (simp add: computeActiveEvents_def forEachPush_def activeRepeating_malformed[OF assms])
  have u: "getUpcomingEvents tza
              (this\<lparr>eventsConfig := Some (cfg\<lparr>repeating_events := Some (xs @ ev # ys)\<rparr>)\<rparr>) t n
           = sort_key (\<lambda>u. getTime (u_start u))
               (concat (map (upcomingRepeating t (setDate tza t (getDate tza t + n))) (xs @ ys))
                @ concat (map (upcomingOneTime t (setDate tza t (getDate tza t + n)))
                            (oneTimeOf cfg)))"
    unfolding getUpcomingEvents_def Let_def
    by (simp add: forEachPush_oneTimeOf)
       (simp add: forEachPush_def upcomingRepeating_malformed[OF assms])
  have c: "getCalendarForMonth
              (this\<lparr>eventsConfig := Some (cfg\<lparr>repeating_events := Some (xs @ ev # ys)\<rparr>)\<rparr>) y m
           = concat (map (calendarRepeating (Date_UTC y m 1 0 0 0 0)
                            (Date_UTC y (m + 1) 0 23 59 59 0)) (xs @ ys))
             @ concat (map (calendarOneTime (Date_UTC y m 1 0 0 0 0)
                              (Date_UTC y (m + 1) 0 23 59 59 0)) (oneTimeOf cfg))"
    unfolding getCalendarForMonth_def Let_def
    by (simp add: forEachPush_oneTimeOf)
       (simp add: forEachPush_def calendarRepeating_malformed[OF assms])
  have f: "fst (getActiveEvents
                  (this\<lparr>eventsConfig := Some (cfg\<lparr>repeating_events := Some (xs @ ev # ys)\<rparr>)\<rparr>)
                  t True)
           = sort_key (\<lambda>a. totalMs (a_countdown a))
               (concat (map (activeRepeating t) (xs @ ys))
                @ concat (map (activeOneTime t) (oneTimeOf cfg)))"
    by (simp add: getActiveEvents_fst a)
  have g: "fst (getActiveEvents
                  (this\<lparr>eventsConfig := Some (cfg\<lparr>repeating_events := Some (xs @ ev # ys)\<rparr>)\<rparr>)
                  t force)
           = fst (getActiveEvents
                  (this\<lparr>eventsConfig := Some (cfg\<lparr>repeating_events := Some (xs @ ys)\<rparr>)\<rparr>)
                  t force)"
    by (simp add: getActiveEvents_fst a')
  have u': "getUpcomingEvents tza
              (this\<lparr>eventsConfig := Some (cfg\<lparr>repeating_events := Some (xs @ ev # ys)\<rparr>)\<rparr>) t n
           = getUpcomingEvents tza
              (this\<lparr>eventsConfig := Some (cfg\<lparr>repeating_events := Some (xs @ ys)\<rparr>)\<rparr>) t n"
    by (simp add: getUpcomingEvents_def Let_def forEachPush_def
        upcomingRepeating_malformed[OF assms])
  have c': "getCalendarForMonth
              (this\<lparr>eventsConfig := Some (cfg\<lparr>repeating_events := Some (xs @ ev # ys)\<rparr>)\<rparr>) y m
           = getCalendarForMonth
              (this\<lparr>eventsConfig := Some (cfg\<lparr>repeating_events := Some (xs @ ys)\<rparr>)\<rparr>) y m"
    by (simp add: getCalendarForMonth_def Let_def forEachPush_def
        calendarRepeating_malformed[OF assms])
  show ?thesis
    by (intro conjI, rule malformed_error[OF assms], rule f, rule u, rule c, rule g, rule u',
        rule c')
qed

theorem malformed_definition_skipped_witness:
  "malformed (raidWeekend\<lparr>baseDate := ''Funday''\<rparr>)
   \<and> calculateRepeatingEventDates (raidWeekend\<lparr>baseDate := ''Funday''\<rparr>) (Date_UTC 2026 0 18 12 0 0 0)
       = Inl (Error ''Invalid day of week: Funday'')
   \<and> malformed (goldPass\<lparr>modifier := ''yearly''\<rparr>)
   \<and> calculateRepeatingEventDates (goldPass\<lparr>modifier := ''yearly''\<rparr>) (Date_UTC 2026 0 18 12 0 0 0)
       = Inl (Error ''Unknown modifier: yearly'')
   \<and> map a_title
        (fst (getActiveEvents
               (managerWith
                  \<lparr>repeating_events = Some [goldPass, raidWeekend\<lparr>baseDate := ''Funday''\<rparr>, raidWeekend],
                   one_time_events = Some [gemBoosts]\<rparr>)
               (Date_UTC 2026 0 18 12 0 0 0) False))
       = [''Raid Weekend'', ''1 Gem Boosts'', ''Gold Pass'']
   \<and> map (\<lambda>u. (u_title u, u_start u, u_end u, isActive u))
        (getUpcomingEvents newYork2026
           (managerWith
              \<lparr>repeating_events = Some [goldPass, raidWeekend\<lparr>baseDate := ''Funday''\<rparr>, raidWeekend],
               one_time_events = Some [gemBoosts]\<rparr>)
           (Date_UTC 2026 0 18 12 0 0 0) 7)
       = [(''Gold Pass'', Some (Date_UTC 2026 0 1 8 0 0 0), Some (Date_UTC 2026 1 1 8 0 0 0), True),
          (''1 Gem Boosts'', Some (Date_UTC 2026 0 15 8 0 0 0), Some (Date_UTC 2026 0 20 8 0 0 0), True),
          (''Raid Weekend'', Some (Date_UTC 2026 0 16 8 0 0 0), Some (Date_UTC 2026 0 19 8 0 0 0), True)]
   \<and> map (\<lambda>c. (date c, c_title c, isStart c, isEnd c))
        (getCalendarForMonth
           (managerWith
              \<lparr>repeating_events = Some [goldPass, raidWeekend\<lparr>baseDate := ''Funday''\<rparr>, raidWeekend],
               one_time_events = Some [gemBoosts]\<rparr>)
           2026 0)
       = [(2, ''Raid Weekend'', True, False), (5, ''Raid Weekend'', False, True),
          (9, ''Raid Weekend'', True, False), (12, ''Raid Weekend'', False, True),
          (16, ''Raid Weekend'', True, False), (19, ''Raid Weekend'', False, True),
          (23, ''Raid Weekend'', True, False), (26, ''Raid Weekend'', False, True),
          (30, ''Raid Weekend'', True, False),
          (15, ''1 Gem Boosts'', True, False), (20, ''1 Gem Boosts'', False, True)]"
proof -
  let ?t = "Date_UTC 2026 0 18 12 0 0 0"
  let ?bad = "raidWeekend\<lparr>baseDate := ''Funday''\<rparr>"
  let ?bad2 = "goldPass\<lparr>modifier := ''yearly''\<rparr>"
  have m: "malformed ?bad" by code_simp
  have m2: "malformed ?bad2" by code_simp
  note th = malformed_definition_skipped[OF m, where t = ?t and this = newManager
      and cfg = exampleConfig and xs = "[goldPass]" and ys = "[raidWeekend]" and force = False
      and tza = newYork2026 and n = 7 and y = 2026 and m = 0]
  note th2 = malformed_definition_skipped[OF m2, where t = ?t]
  note skipA = th[THEN conjunct2, THEN conjunct2, THEN conjunct2, THEN conjunct2, THEN conjunct1]
  note skipU = th[THEN conjunct2, THEN conjunct2, THEN conjunct2, THEN conjunct2, THEN conjunct2,
      THEN conjunct1]
  note skipC = th[THEN conjunct2, THEN conjunct2, THEN conjunct2, THEN conjunct2, THEN conjunct2,
      THEN conjunct2]
  have e1: "calculateRepeatingEventDates ?bad ?t = Inl (Error ''Invalid day of week: Funday'')"
    using th[THEN conjunct1] by (simp add: raidWeekend_def)
  have e2: "calculateRepeatingEventDates ?bad2 ?t = Inl (Error ''Unknown modifier: yearly'')"
    using th2[THEN conjunct1] by (simp add: goldPass_def)
  have c1: "exampleConfig\<lparr>repeating_events := Some ([goldPass] @ ?bad # [raidWeekend])\<rparr>
      = \<lparr>repeating_events = Some [goldPass, ?bad, raidWeekend], one_time_events = Some [gemBoosts]\<rparr>"
    by (simp add: exampleConfig_def)
  have c2: "exampleConfig\<lparr>repeating_events := Some ([goldPass] @ [raidWeekend])\<rparr> = exampleConfig"
    by (simp add: exampleConfig_def)
  have v: "map a_title (fst (getActiveEvents (newManager\<lparr>eventsConfig := Some exampleConfig\<rparr>) ?t False))
       = [''Raid Weekend'', ''1 Gem Boosts'', ''Gold Pass'']"
    by code_simp
  have vu: "map (\<lambda>u. (u_title u, u_start u, u_end u, isActive u))
        (getUpcomingEvents newYork2026 (newManager\<lparr>eventsConfig := Some exampleConfig\<rparr>) ?t 7)
       = [(''Gold Pass'', Some (Date_UTC 2026 0 1 8 0 0 0), Some (Date_UTC 2026 1 1 8 0 0 0), True),
          (''1 Gem Boosts'', Some (Date_UTC 2026 0 15 8 0 0 0), Some (Date_UTC 2026 0 20 8 0 0 0), True),
          (''Raid Weekend'', Some (Date_UTC 2026 0 16 8 0 0 0), Some (Date_UTC 2026 0 19 8 0 0 0), True)]"
    by code_simp
  have vc: "map (\<lambda>c. (date c, c_title c, isStart c, isEnd c))
        (getCalendarForMonth (newManager\<lparr>eventsConfig := Some exampleConfig\<rparr>) 2026 0)
       = [(2, ''Raid Weekend'', True, False), (5, ''Raid Weekend'', False, True),
          (9, ''Raid Weekend'', True, False), (12, ''Raid Weekend'', False, True),
          (16, ''Raid Weekend'', True, False), (19, ''Raid Weekend'', False, True),
          (23, ''Raid Weekend'', True, False), (26, ''Raid Weekend'', False, True),
          (30, ''Raid Weekend'', True, False),
          (15, ''1 Gem Boosts'', True, False), (20, ''1 Gem Boosts'', False, True)]"
    by code_simp
  have q: "map a_title
        (fst (getActiveEvents
               (managerWith
                  \<lparr>repeating_events = Some [goldPass, ?bad, raidWeekend],
                   one_time_events = Some [gemBoosts]\<rparr>) ?t False))
       = [''Raid Weekend'', ''1 Gem Boosts'', ''Gold Pass'']"
    using skipA v unfolding c1 c2 managerWith_def by simp
  have qu: "map (\<lambda>u. (u_title u, u_start u, u_end u, isActive u))
        (getUpcomingEvents newYork2026
           (managerWith
              \<lparr>repeating_events = Some [goldPass, ?bad, raidWeekend],
               one_time_events = Some [gemBoosts]\<rparr>) ?t 7)
       = [(''Gold Pass'', Some (Date_UTC 2026 0 1 8 0 0 0), Some (Date_UTC 2026 1 1 8 0 0 0), True),
          (''1 Gem Boosts'', Some (Date_UTC 2026 0 15 8 0 0 0), Some (Date_UTC 2026 0 20 8 0 0 0), True),
          (''Raid Weekend'', Some (Date_UTC 2026 0 16 8 0 0 0), Some (Date_UTC 2026 0 19 8 0 0 0), True)]"
    using skipU vu unfolding c1 c2 managerWith_def by simp
  have qc: "map (\<lambda>c. (date c, c_title c, isStart c, isEnd c))
        (getCalendarForMonth
           (managerWith
              \<lparr>repeating_events = Some [goldPass, ?bad, raidWeekend],
               one_time_events = Some [gemBoosts]\<rparr>) 2026 0)
       = [(2, ''Raid Weekend'', True, False), (5, ''Raid Weekend'', False, True),
          (9, ''Raid Weekend'', True, False), (12, ''Raid Weekend'', False, True),
          (16, ''Raid Weekend'', True, False), (19, ''Raid Weekend'', False, True),
          (23, ''Raid Weekend'', True, False), (26, ''Raid Weekend'', False, True),
          (30, ''Raid Weekend'', True, False),
          (15, ''1 Gem Boosts'', True, False), (20, ''1 Gem Boosts'', False, True)]"
    using skipC vc unfolding c1 c2 managerWith_def by simp
  show ?thesis using m m2 e1 e2 q qu qc by simp
qed

section \<open>The cache of active events\<close>

text \<open>
  Claim C3 at a failing input. The cache is filled at 2026-02-01T09:00Z; a call without
  \<open>forceRefresh\<close> for 2026-01-01T07:00Z, a month earlier, returns the cached list and
  leaves the cache as it is, although no event is active at that instant: the test
  \<^verbatim>\<open>currentDate.getTime() - this.lastUpdateTime < 1000\<close> holds for every earlier reference.
\<close>

theorem stale_cache_for_earlier_reference:
  "(let (r1, m1) = getActiveEvents (managerWith goldPassConfig) (Date_UTC 2026 1 1 9 0 0 0) False;
        (r2, m2) = getActiveEvents m1 (Date_UTC 2026 0 1 7 0 0 0) False
    in map a_title r1 = [''Gold Pass''] \<and> r2 = r1 \<and> m2 = m1
       \<and> computeActiveEvents goldPassConfig (Date_UTC 2026 0 1 7 0 0 0) = [])"
  by code_simp

section \<open>The calendar of a month\<close>

text \<open>
  Claim C5 at a failing input. A weekly event of three days starting on Sunday has an
  occurrence from 2026-02-01T08:00Z to 2026-02-04T08:00Z, as \<^verbatim>\<open>calculateWeeklyEvent\<close>
  itself computes for a reference on 2 February. The calendar of February 2026, whose
  first day is a Sunday, has no marker for its start or its end: the search starts on
  the target weekday, where the window calculation projects to the next week.
\<close>

theorem calendar_misses_occurrence_on_first_of_month:
  "calculateWeeklyEvent ''Sunday'' 3 (Date_UTC 2026 1 2 12 0 0 0)
     = Inr \<lparr>wstart = Some (Date_UTC 2026 1 1 8 0 0 0), wend = Some (Date_UTC 2026 1 4 8 0 0 0)\<rparr>
   \<and> map (\<lambda>c. (date c, isStart c, isEnd c))
        (getCalendarForMonth
           (managerWith \<lparr>repeating_events = Some [weeklyEvent ''Sunday'' 3], one_time_events = None\<rparr>)
           2026 1)
     = [(8, True, False), (11, False, True), (15, True, False), (18, False, True),
        (22, True, False), (25, False, True)]"
  by code_simp

end
